theory Spec2Isabelle
  imports Main "HOL-Library.AList"
begin

section \<open>Strings\<close>

text \<open>
  A JavaScript string is a sequence of UTF-16 code units. The texts of this development
  are \<^typ>\<open>string\<close>s whose characters stand for the code units below 256 (ASCII and the
  Latin-1 supplement); on these the functions below are the built-ins of the language.

  \<open>isSpace\<close> is the class \<open>\s\<close> of regular expressions, which is also what \<open>trim\<close>
  strips: tab, line feed, vertical tab, form feed, carriage return, space and the
  no-break space.
\<close>

definition isSpace :: "char \<Rightarrow> bool" where
  "isSpace c = (c \<in> set [CHR 0x09, CHR 0x0A, CHR 0x0B, CHR 0x0C, CHR 0x0D, CHR 0x20, CHR 0xA0])"

definition trim :: "string \<Rightarrow> string" where
  "trim s = rev (dropWhile isSpace (rev (dropWhile isSpace s)))"

text \<open>\<open>s.split(d)\<close> for a one-character separator: the empty string splits into one empty piece.\<close>

fun split :: "char \<Rightarrow> string \<Rightarrow> string list" where
  "split d [] = [[]]"
| "split d (c # cs) =
     (if c = d then [] # split d cs
      else (case split d cs of [] \<Rightarrow> [[c]] | x # xs \<Rightarrow> (c # x) # xs))"

text \<open>\<open>xs.join(' ')\<close>.\<close>

fun join :: "string \<Rightarrow> string list \<Rightarrow> string" where
  "join sep [] = []"
| "join sep [x] = x"
| "join sep (x # y # ys) = x @ sep @ join sep (y # ys)"

text \<open>
  \<open>toLowerCase\<close> and \<open>toUpperCase\<close> on code units below 256: the ASCII letters and the
  accented capitals \<open>0xC0\<close> to \<open>0xDE\<close> without the multiplication sign \<open>0xD7\<close>.
  (\<open>toUpperCase\<close> leaves this alphabet on \<open>0xB5\<close>, \<open>0xDF\<close> and \<open>0xFF\<close>; the program applies it
  only to the role word captured by the line pattern, which is made of ASCII letters and
  a space.)
\<close>

definition upperChars :: string where
  "upperChars = ''ABCDEFGHIJKLMNOPQRSTUVWXYZ'' @
     [CHR 0xC0, CHR 0xC1, CHR 0xC2, CHR 0xC3, CHR 0xC4, CHR 0xC5, CHR 0xC6, CHR 0xC7,
      CHR 0xC8, CHR 0xC9, CHR 0xCA, CHR 0xCB, CHR 0xCC, CHR 0xCD, CHR 0xCE, CHR 0xCF,
      CHR 0xD0, CHR 0xD1, CHR 0xD2, CHR 0xD3, CHR 0xD4, CHR 0xD5, CHR 0xD6,
      CHR 0xD8, CHR 0xD9, CHR 0xDA, CHR 0xDB, CHR 0xDC, CHR 0xDD, CHR 0xDE]"

definition lowerChars :: string where
  "lowerChars = ''abcdefghijklmnopqrstuvwxyz'' @
     [CHR 0xE0, CHR 0xE1, CHR 0xE2, CHR 0xE3, CHR 0xE4, CHR 0xE5, CHR 0xE6, CHR 0xE7,
      CHR 0xE8, CHR 0xE9, CHR 0xEA, CHR 0xEB, CHR 0xEC, CHR 0xED, CHR 0xEE, CHR 0xEF,
      CHR 0xF0, CHR 0xF1, CHR 0xF2, CHR 0xF3, CHR 0xF4, CHR 0xF5, CHR 0xF6,
      CHR 0xF8, CHR 0xF9, CHR 0xFA, CHR 0xFB, CHR 0xFC, CHR 0xFD, CHR 0xFE]"

definition toLowerChar :: "char \<Rightarrow> char" where
  "toLowerChar c = (case map_of (zip upperChars lowerChars) c of Some d \<Rightarrow> d | None \<Rightarrow> c)"

definition toUpperChar :: "char \<Rightarrow> char" where
  "toUpperChar c = (case map_of (zip lowerChars upperChars) c of Some d \<Rightarrow> d | None \<Rightarrow> c)"

definition toLowerCase :: "string \<Rightarrow> string" where
  "toLowerCase s = map toLowerChar s"

definition toUpperCase :: "string \<Rightarrow> string" where
  "toUpperCase s = map toUpperChar s"

text \<open>\<open>s.includes(p)\<close>: \<open>p\<close> occurs in \<open>s\<close> as a contiguous substring.\<close>

fun startsWith :: "string \<Rightarrow> string \<Rightarrow> bool" where
  "startsWith s [] = True"
| "startsWith [] (p # ps) = False"
| "startsWith (c # cs) (p # ps) = (c = p \<and> startsWith cs ps)"

fun includesStr :: "string \<Rightarrow> string \<Rightarrow> bool" where
  "includesStr [] p = (p = [])"
| "includesStr (c # cs) p = (startsWith (c # cs) p \<or> includesStr cs p)"

text \<open>
  \<open>s.split(/\s+/).filter(w => w.length > 0)\<close>: the maximal runs of characters that are
  not white space, in order.
\<close>

fun wordsFrom :: "string \<Rightarrow> string \<Rightarrow> string list" where
  "wordsFrom w [] = (if w = [] then [] else [rev w])"
| "wordsFrom w (c # cs) =
     (if isSpace c then (if w = [] then wordsFrom [] cs else rev w # wordsFrom [] cs)
      else wordsFrom (c # w) cs)"

definition splitWords :: "string \<Rightarrow> string list" where
  "splitWords s = wordsFrom [] s"

text \<open>
  The operators \<open>x || y\<close> and the test \<open>if (x)\<close> on a property that holds a string or is
  absent: an absent property and the empty string are falsy.
\<close>

definition truthy :: "string option \<Rightarrow> bool" where
  "truthy x = (x \<noteq> None \<and> x \<noteq> Some [])"

definition orElse :: "string option \<Rightarrow> string option \<Rightarrow> string option" where
  "orElse x y = (if truthy x then x else y)"


section \<open>Regular expressions\<close>

text \<open>
  The patterns of the program are transcribed into a small syntax and run by a
  backtracking matcher with the priorities of the language: alternatives left to right,
  greedy repetition, an iteration of \<open>*\<close> that consumes nothing is not repeated.

  A matcher state is the character before the current position (\<open>None\<close> at the start of
  the input), the rest of the input, and the groups captured so far (latest first).
  \<open>ends r st\<close> lists the states in which a match of \<open>r\<close> starting in \<open>st\<close> can end, in the
  order in which backtracking tries them.
\<close>

datatype re =
    Eps
  | Lit "char \<Rightarrow> bool"
  | Cat re re
  | Alt re re
  | Star re
  | Grp nat re
  | Bol
  | Eol
  | Wordb

type_synonym rstate = "char option \<times> string \<times> (nat \<times> string) list"

definition isWordChar :: "char \<Rightarrow> bool" where
  "isWordChar c = (c \<in> set ''abcdefghijklmnopqrstuvwxyzABCDEFGHIJKLMNOPQRSTUVWXYZ0123456789_'')"

function ends :: "re \<Rightarrow> rstate \<Rightarrow> rstate list" where
  "ends Eps st = [st]"
| "ends (Lit p) (pv, [], cs) = []"
| "ends (Lit p) (pv, c # r, cs) = (if p c then [(Some c, r, cs)] else [])"
| "ends (Cat a b) st = concat (map (ends b) (ends a st))"
| "ends (Alt a b) st = ends a st @ ends b st"
| "ends (Star a) st =
     concat (map (ends (Star a))
       (filter (\<lambda>st'. length (fst (snd st')) < length (fst (snd st))) (ends a st))) @ [st]"
| "ends (Grp n a) (pv, r, cs) =
     map (\<lambda>(pv', r', cs'). (pv', r', (n, take (length r - length r') r) # cs'))
       (ends a (pv, r, cs))"
| "ends Bol (pv, r, cs) = (if pv = None then [(pv, r, cs)] else [])"
| "ends Eol (pv, r, cs) = (if r = [] then [(pv, r, cs)] else [])"
| "ends Wordb (pv, r, cs) =
     (if (case pv of None \<Rightarrow> False | Some c \<Rightarrow> isWordChar c)
         \<noteq> (case r of [] \<Rightarrow> False | c # _ \<Rightarrow> isWordChar c)
      then [(pv, r, cs)] else [])"
  by pat_completeness auto
termination
  by (relation "inv_image (less_than <*lex*> less_than)
        (\<lambda>(r, st). (size r, length (fst (snd st))))") auto

text \<open>
  A pattern is tried at every position from the left; the first position with a match
  wins, and there the match of highest priority.
\<close>

fun search :: "re \<Rightarrow> char option \<Rightarrow> string \<Rightarrow> rstate option" where
  "search r pv [] = (case ends r (pv, [], []) of st # _ \<Rightarrow> Some st | [] \<Rightarrow> None)"
| "search r pv (c # cs) =
     (case ends r (pv, c # cs, []) of st # _ \<Rightarrow> Some st | [] \<Rightarrow> search r (Some c) cs)"

text \<open>
  \<open>exec r s\<close> is \<open>s.match(r)\<close> for a pattern without the \<open>g\<close> flag: \<open>None\<close> for \<open>null\<close>,
  otherwise the captured groups; \<open>test r s\<close> is \<open>r.test(s)\<close>.
\<close>

definition exec :: "re \<Rightarrow> string \<Rightarrow> (nat \<times> string) list option" where
  "exec r s = map_option (\<lambda>st. snd (snd st)) (search r None s)"

definition test :: "re \<Rightarrow> string \<Rightarrow> bool" where
  "test r s = (search r None s \<noteq> None)"

definition group :: "(nat \<times> string) list \<Rightarrow> nat \<Rightarrow> string" where
  "group cs n = (case map_of cs n of Some g \<Rightarrow> g | None \<Rightarrow> [])"

text \<open>
  Abbreviations of the pattern syntax. Under the flag \<open>i\<close> a character matches a pattern
  letter when both have the same upper case; for the ASCII letters and signs of the
  program's patterns that is equality up to the case of ASCII letters.
\<close>

definition lit :: "char \<Rightarrow> re" where
  "lit c = Lit (\<lambda>x. x = c)"

definition liti :: "char \<Rightarrow> re" where
  "liti c = Lit (\<lambda>x. toLowerChar x = toLowerChar c)"

definition cats :: "re list \<Rightarrow> re" where
  "cats rs = foldr Cat rs Eps"

definition alts :: "re list \<Rightarrow> re" where
  "alts rs = foldr Alt (butlast rs) (last rs)"

definition word_i :: "string \<Rightarrow> re" where
  "word_i s = cats (map liti s)"

definition oneOrMore :: "re \<Rightarrow> re" where
  "oneOrMore r = Cat r (Star r)"

definition optional :: "re \<Rightarrow> re" where
  "optional r = Alt r Eps"

definition oneOf :: "string \<Rightarrow> re" where
  "oneOf s = Lit (\<lambda>c. c \<in> set s)"

definition digit :: re where
  "digit = oneOf ''0123456789''"

definition space :: re where
  "space = Lit isSpace"

definition wordChar :: re where
  "wordChar = Lit isWordChar"

text \<open>The dot matches every character but the line terminators.\<close>

definition dot :: re where
  "dot = Lit (\<lambda>c. c \<noteq> CHR 0x0A \<and> c \<noteq> CHR 0x0D)"

definition anyChar :: re where
  "anyChar = Lit (\<lambda>c. True)"


section \<open>JSON\<close>

text \<open>
  \<open>JSON.parse\<close>, after the grammar of ECMA-404. A string of a JSON text can denote, by a
  \<open>\uXXXX\<close> escape, a code unit that the text itself does not contain, so the strings of
  JSON values are lists of code units as numbers. A number literal is kept as the
  integer pair \<open>(m, e)\<close> of its decimal value \<open>m * 10 ^ e\<close>.
\<close>

datatype json =
    JNull
  | JBool bool
  | JNum int int
  | JStr "nat list"
  | JArr "json list"
  | JObj "(nat list \<times> json) list"

datatype jsError = SyntaxError | RangeError | TypeError

definition isJsonWs :: "char \<Rightarrow> bool" where
  "isJsonWs c = (c \<in> set [CHR 0x20, CHR 0x09, CHR 0x0A, CHR 0x0D])"

definition skipWs :: "string \<Rightarrow> string" where
  "skipWs s = dropWhile isJsonWs s"

definition isDigit :: "char \<Rightarrow> bool" where
  "isDigit c = (c \<in> set ''0123456789'')"

definition digitVal :: "char \<Rightarrow> nat" where
  "digitVal c = of_char c - 48"

definition decimal :: "string \<Rightarrow> int" where
  "decimal ds = foldl (\<lambda>n c. 10 * n + int (digitVal c)) 0 ds"

definition hexVal :: "char \<Rightarrow> nat option" where
  "hexVal c = map_of (zip ''0123456789abcdefABCDEF''
     [0, 1, 2, 3, 4, 5, 6, 7, 8, 9, 10, 11, 12, 13, 14, 15, 10, 11, 12, 13, 14, 15]) c"

definition hex4 :: "char \<Rightarrow> char \<Rightarrow> char \<Rightarrow> char \<Rightarrow> nat option" where
  "hex4 a b c d =
     (case (hexVal a, hexVal b, hexVal c, hexVal d) of
        (Some w, Some x, Some y, Some z) \<Rightarrow> Some (4096 * w + 256 * x + 16 * y + z)
      | _ \<Rightarrow> None)"

text \<open>The character after a backslash, other than \<open>u\<close>.\<close>

definition escapeChar :: "char \<Rightarrow> nat option" where
  "escapeChar c = map_of (zip [CHR 0x22, CHR 0x5C, CHR ''/'', CHR ''b'', CHR ''f'', CHR ''n'', CHR ''r'', CHR ''t'']
     [34, 92, 47, 8, 12, 10, 13, 9]) c"

text \<open>
  The characters of a string literal after its opening quote, up to the closing quote.
  A control character below \<open>0x20\<close> is not allowed unescaped.
\<close>

fun parseChars :: "string \<Rightarrow> (nat list \<times> string) option" where
  "parseChars [] = None"
| "parseChars (c # r) =
     (if c = CHR 0x22 then Some ([], r)
      else if c = CHR 0x5C then
        (case r of
           [] \<Rightarrow> None
         | e # r1 \<Rightarrow>
             if e = CHR ''u'' then
               (case r1 of
                  h1 # h2 # h3 # h4 # r2 \<Rightarrow>
                    (case hex4 h1 h2 h3 h4 of
                       None \<Rightarrow> None
                     | Some n \<Rightarrow> map_option (\<lambda>(cs, t). (n # cs, t)) (parseChars r2))
                | _ \<Rightarrow> None)
             else
               (case escapeChar e of
                  None \<Rightarrow> None
                | Some n \<Rightarrow> map_option (\<lambda>(cs, t). (n # cs, t)) (parseChars r1)))
      else if (of_char c :: nat) < 32 then None
      else map_option (\<lambda>(cs, t). (of_char c # cs, t)) (parseChars r))"

text \<open>
  A number: \<open>-? (0 | [1-9][0-9]*) (. [0-9]+)? ([eE] [+-]? [0-9]+)?\<close>. After a leading
  zero the integer part ends.
\<close>

definition parseFrac :: "string \<Rightarrow> (string \<times> string) option" where
  "parseFrac s =
     (case s of
        c # r \<Rightarrow>
          if c = CHR ''.'' then
            (if takeWhile isDigit r = [] then None
             else Some (takeWhile isDigit r, dropWhile isDigit r))
          else Some ([], s)
      | [] \<Rightarrow> Some ([], s))"

definition parseExp :: "string \<Rightarrow> (int \<times> string) option" where
  "parseExp s =
     (case s of
        c # r \<Rightarrow>
          if c = CHR ''e'' \<or> c = CHR ''E'' then
            (let neg = (case r of d # _ \<Rightarrow> d = CHR ''-'' | [] \<Rightarrow> False);
                 r1 = (case r of d # r' \<Rightarrow> if d = CHR ''-'' \<or> d = CHR ''+'' then r' else r | [] \<Rightarrow> r)
             in if takeWhile isDigit r1 = [] then None
                else Some ((if neg then - decimal (takeWhile isDigit r1)
                            else decimal (takeWhile isDigit r1)),
                           dropWhile isDigit r1))
          else Some (0, s)
      | [] \<Rightarrow> Some (0, s))"

definition parseNumber :: "string \<Rightarrow> (json \<times> string) option" where
  "parseNumber s =
     (let neg = (case s of c # _ \<Rightarrow> c = CHR ''-'' | [] \<Rightarrow> False);
          s1 = (if neg then tl s else s);
          ip = (case s1 of c # _ \<Rightarrow> if c = CHR ''0'' then [c] else takeWhile isDigit s1 | [] \<Rightarrow> []);
          s2 = drop (length ip) s1
      in if ip = [] then None
         else (case parseFrac s2 of
                 None \<Rightarrow> None
               | Some (fp, s3) \<Rightarrow>
                   (case parseExp s3 of
                      None \<Rightarrow> None
                    | Some (ex, s4) \<Rightarrow>
                        Some (JNum ((if neg then - 1 else 1) * decimal (ip @ fp))
                                   (ex - int (length fp)), s4))))"

lemma length_skipWs: "length (skipWs s) \<le> length s"
  by (simp add: skipWs_def length_dropWhile_le)

lemma skipWs_Cons_length: "skipWs s = c # r \<Longrightarrow> length r < length s"
  using length_skipWs [of s] by simp

text \<open>
  Values, the elements of an array after its opening bracket or a comma, and the members
  of an object after its opening brace or a comma. The recursion is on the length of the
  rest of the text; the tests \<open>length t < length s\<close> make that visible to the definition
  and never fail (lemmas \<open>parseElems_guard\<close>, \<open>parseMembers_guard\<close> below).
\<close>

function parseValue :: "string \<Rightarrow> (json \<times> string) option"
  and parseElems :: "string \<Rightarrow> (json list \<times> string) option"
  and parseMembers :: "string \<Rightarrow> ((nat list \<times> json) list \<times> string) option"
where
  "parseValue s =
     (case skipWs s of
        [] \<Rightarrow> None
      | c # r \<Rightarrow>
          if c = CHR ''['' then
            (case skipWs r of
               [] \<Rightarrow> None
             | c1 # r1 \<Rightarrow>
                 if c1 = CHR '']'' then Some (JArr [], r1)
                 else map_option (\<lambda>(vs, t). (JArr vs, t)) (parseElems (c1 # r1)))
          else if c = CHR ''{'' then
            (case skipWs r of
               [] \<Rightarrow> None
             | c1 # r1 \<Rightarrow>
                 if c1 = CHR ''}'' then Some (JObj [], r1)
                 else map_option (\<lambda>(ms, t). (JObj ms, t)) (parseMembers (c1 # r1)))
          else if c = CHR 0x22 then map_option (\<lambda>(cs, t). (JStr cs, t)) (parseChars r)
          else if take 4 (c # r) = ''true'' then Some (JBool True, drop 4 (c # r))
          else if take 5 (c # r) = ''false'' then Some (JBool False, drop 5 (c # r))
          else if take 4 (c # r) = ''null'' then Some (JNull, drop 4 (c # r))
          else parseNumber (c # r))"
| "parseElems s =
     (case parseValue s of
        None \<Rightarrow> None
      | Some (v, t) \<Rightarrow>
          (case skipWs t of
             [] \<Rightarrow> None
           | c # t1 \<Rightarrow>
               if c = CHR '']'' then Some ([v], t1)
               else if c = CHR '','' \<and> length t1 < length s then
                 map_option (\<lambda>(vs, u). (v # vs, u)) (parseElems t1)
               else None))"
| "parseMembers s =
     (case skipWs s of
        [] \<Rightarrow> None
      | c # r \<Rightarrow>
          if c = CHR 0x22 then
            (case parseChars r of
               None \<Rightarrow> None
             | Some (k, t) \<Rightarrow>
                 (case skipWs t of
                    [] \<Rightarrow> None
                  | c1 # t1 \<Rightarrow>
                      if c1 = CHR '':'' \<and> length t1 < length s then
                        (case parseValue t1 of
                           None \<Rightarrow> None
                         | Some (v, u) \<Rightarrow>
                             (case skipWs u of
                                [] \<Rightarrow> None
                              | c2 # u1 \<Rightarrow>
                                  if c2 = CHR ''}'' then Some ([(k, v)], u1)
                                  else if c2 = CHR '','' \<and> length u1 < length s then
                                    map_option (\<lambda>(ms, w). ((k, v) # ms, w)) (parseMembers u1)
                                  else None))
                      else None))
          else None)"
  by pat_completeness auto

termination
proof (relation "measure (\<lambda>x. case x of
          Inl s \<Rightarrow> 2 * length s
        | Inr (Inl s) \<Rightarrow> 2 * length s + 1
        | Inr (Inr s) \<Rightarrow> 2 * length s + 1)", goal_cases)
  case 1
  show ?case by simp
next
  case (2 s c r c1 r1)
  from skipWs_Cons_length [OF 2(1)] skipWs_Cons_length [OF 2(3)]
  show ?case by simp
next
  case (3 s c r c1 r1)
  from skipWs_Cons_length [OF 3(1)] skipWs_Cons_length [OF 3(4)]
  show ?case by simp
next
  case (4 s)
  show ?case by simp
next
  case (5 s x2 v t c t1)
  then show ?case by simp
next
  case (6 s c r x2 k t c1 t1)
  then show ?case by simp
next
  case (7 s c r x2 k t c1 t1 x2a v u c2 u1)
  then show ?case by simp
qed

declare parseValue.simps [simp del] parseElems.simps [simp del] parseMembers.simps [simp del]

text \<open>\<open>JSON.parse(s)\<close>: one value, with nothing but white space after it, or a \<open>SyntaxError\<close>.\<close>

definition JSON_parse :: "string \<Rightarrow> jsError + json" where
  "JSON_parse s =
     (case parseValue s of
        None \<Rightarrow> Inl SyntaxError
      | Some (v, t) \<Rightarrow> if skipWs t = [] then Inr v else Inl SyntaxError)"


text \<open>Every successful parse consumes input, so the length tests of the definition hold whenever they are reached.\<close>

lemma parseChars_shorter: "parseChars r = Some (cs, t) \<Longrightarrow> length t < length r"
proof (induction r arbitrary: cs t rule: parseChars.induct)
  case 1
  then show ?case by simp
next
  case (2 c r)
  then show ?case
    by (fastforce split: if_splits list.splits option.splits)
qed

lemma parseFrac_length: "parseFrac s = Some (fp, t) \<Longrightarrow> length t \<le> length s"
  by (auto simp: parseFrac_def split: list.splits if_splits
      intro: le_trans [OF length_dropWhile_le])

lemma parseExp_length: "parseExp s = Some (ex, t) \<Longrightarrow> length t \<le> length s"
  by (auto simp: parseExp_def Let_def split: list.splits if_splits
      intro: le_trans [OF length_dropWhile_le] le_SucI)

lemma parseNumber_shorter:
  assumes a: "parseNumber s = Some (v, t)"
  shows "length t < length s"
proof -
  let ?neg = "(case s of c # _ \<Rightarrow> c = CHR ''-'' | [] \<Rightarrow> False)"
  let ?s1 = "(if ?neg then tl s else s)"
  let ?ip = "(case ?s1 of c # _ \<Rightarrow> if c = CHR ''0'' then [c] else takeWhile isDigit ?s1 | [] \<Rightarrow> [])"
  let ?s2 = "drop (length ?ip) ?s1"
  from a have ip: "?ip \<noteq> []"
    unfolding parseNumber_def Let_def by (simp split: if_splits)
  with a obtain fp s3 ex where f: "parseFrac ?s2 = Some (fp, s3)" and e: "parseExp s3 = Some (ex, t)"
    unfolding parseNumber_def Let_def by (simp split: option.splits prod.splits)
  have "length ?ip \<le> length ?s1"
    by (auto split: list.splits intro: le_trans [OF length_takeWhile_le])
  with ip have "length ?s2 < length ?s1" by (cases ?ip) auto
  moreover have "length ?s1 \<le> length s" by simp
  ultimately show ?thesis using parseFrac_length [OF f] parseExp_length [OF e] by linarith
qed

lemma parse_shorter:
  "(\<forall>v t. parseValue s = Some (v, t) \<longrightarrow> length t < length s)"
  "(\<forall>vs t. parseElems s1 = Some (vs, t) \<longrightarrow> length t < length s1)"
  "(\<forall>ms t. parseMembers s2 = Some (ms, t) \<longrightarrow> length t < length s2)"
proof (induction s and s1 and s2 rule: parseValue_parseElems_parseMembers.induct)
  case (1 s)
  show ?case
  proof (intro allI impI)
    fix v t assume a: "parseValue s = Some (v, t)"
    show "length t < length s"
    proof (cases "skipWs s")
      case Nil
      with a show ?thesis by (simp add: parseValue.simps)
    next
      case (Cons c r)
      note sk = skipWs_Cons_length [OF Cons]
      show ?thesis
      proof (cases "c = CHR ''[''")
        case True
        show ?thesis
        proof (cases "skipWs r")
          case Nil
          with a Cons True show ?thesis by (simp add: parseValue.simps)
        next
          case (Cons c1 r1)
          note sk1 = skipWs_Cons_length [OF Cons]
          show ?thesis
          proof (cases "c1 = CHR '']''")
            case True
            with a \<open>skipWs s = c # r\<close> \<open>c = CHR ''[''\<close> Cons sk sk1 show ?thesis
              by (simp add: parseValue.simps)
          next
            case False
            with a \<open>skipWs s = c # r\<close> \<open>c = CHR ''[''\<close> Cons
            obtain vs where "parseElems (c1 # r1) = Some (vs, t)"
              by (auto simp: parseValue.simps)
            with "1.IH"(1) [OF \<open>skipWs s = c # r\<close> \<open>c = CHR ''[''\<close> Cons False]
            have "length t < length (c1 # r1)" by blast
            with sk sk1 show ?thesis by simp
          qed
        qed
      next
        case nb: False
        show ?thesis
        proof (cases "c = CHR ''{''")
          case True
          show ?thesis
          proof (cases "skipWs r")
            case Nil
            with a Cons True nb show ?thesis by (simp add: parseValue.simps)
          next
            case c2: (Cons c1 r1)
            note sk1 = skipWs_Cons_length [OF c2]
            show ?thesis
            proof (cases "c1 = CHR ''}''")
              case True
              with a Cons \<open>c = CHR ''{''\<close> c2 sk sk1 show ?thesis
                by (simp add: parseValue.simps)
            next
              case False
              with a Cons \<open>c = CHR ''{''\<close> c2
              obtain ms where "parseMembers (c1 # r1) = Some (ms, t)"
                by (auto simp: parseValue.simps)
              with "1.IH"(2) [OF Cons nb True c2 False]
              have "length t < length (c1 # r1)" by blast
              with sk sk1 show ?thesis by simp
            qed
          qed
        next
          case no: False
          show ?thesis
          proof (cases "c = CHR 0x22")
            case True
            with a Cons nb no obtain cs where "parseChars r = Some (cs, t)"
              by (auto simp: parseValue.simps)
            from parseChars_shorter [OF this] sk show ?thesis by simp
          next
            case nq: False
            from a Cons nb no nq sk show ?thesis
              by (auto simp: parseValue.simps split: if_splits dest!: parseNumber_shorter)
          qed
        qed
      qed
    qed
  qed
next
  case (2 s)
  show ?case
  proof (intro allI impI)
    fix vs t assume a: "parseElems s = Some (vs, t)"
    then obtain v t0 where v: "parseValue s = Some (v, t0)"
      by (auto simp: parseElems.simps split: option.splits)
    with "2.IH"(1) have l0: "length t0 < length s" by blast
    from a v obtain c t1 where sk: "skipWs t0 = c # t1"
      by (auto simp: parseElems.simps split: list.splits)
    note l1 = skipWs_Cons_length [OF sk]
    show "length t < length s"
    proof (cases "c = CHR '']''")
      case True
      with a v sk l0 l1 show ?thesis by (simp add: parseElems.simps)
    next
      case False
      with a v sk obtain vs' where c: "c = CHR '',''" "length t1 < length s"
        and r: "parseElems t1 = Some (vs', t)"
        by (auto simp: parseElems.simps split: if_splits)
      from "2.IH"(2) [OF v refl sk False] c r have "length t < length t1" by blast
      with c show ?thesis by simp
    qed
  qed
next
  case (3 s)
  show ?case
  proof (intro allI impI)
    fix ms t assume a: "parseMembers s = Some (ms, t)"
    then obtain c r where sk: "skipWs s = c # r" and q: "c = CHR 0x22"
      by (auto simp: parseMembers.simps split: list.splits if_splits)
    from a sk q obtain k t0 where k: "parseChars r = Some (k, t0)"
      by (auto simp: parseMembers.simps split: option.splits)
    from a sk q k obtain c1 t1 where sk1: "skipWs t0 = c1 # t1"
      by (auto simp: parseMembers.simps split: list.splits)
    from a sk q k sk1 have col: "c1 = CHR '':'' \<and> length t1 < length s"
      by (auto simp: parseMembers.simps split: if_splits)
    from a sk q k sk1 col obtain v u where v: "parseValue t1 = Some (v, u)"
      by (auto simp: parseMembers.simps split: option.splits)
    from "3.IH"(1) [OF sk q k refl sk1 col] v have lu: "length u < length t1" by blast
    from a sk q k sk1 col v obtain c2 u1 where sk2: "skipWs u = c2 # u1"
      by (auto simp: parseMembers.simps split: list.splits)
    note l2 = skipWs_Cons_length [OF sk2]
    show "length t < length s"
    proof (cases "c2 = CHR ''}''")
      case True
      with a sk q k sk1 col v sk2 lu l2 show ?thesis by (simp add: parseMembers.simps)
    next
      case False
      with a sk q k sk1 col v sk2 obtain ms' where c: "c2 = CHR '',''" "length u1 < length s"
        and r: "parseMembers u1 = Some (ms', t)"
        by (auto simp: parseMembers.simps split: if_splits)
      from "3.IH"(2) [OF sk q k refl sk1 col v refl sk2 False] c r have "length t < length u1" by blast
      with c show ?thesis by simp
    qed
  qed
qed

lemma parseElems_guard:
  assumes "parseValue s = Some (v, t)" and "skipWs t = c # t1"
  shows "length t1 < length s"
  using parse_shorter(1) [of s] assms skipWs_Cons_length [of t c t1] by fastforce

lemma parseMembers_guard:
  assumes "skipWs s = c # r" and "parseChars r = Some (k, t)" and "skipWs t = c1 # t1"
  shows "length t1 < length s"
    and "parseValue t1 = Some (v, u) \<Longrightarrow> skipWs u = c2 # u1 \<Longrightarrow> length u1 < length s"
proof -
  from assms show l: "length t1 < length s"
    using skipWs_Cons_length [of s c r] parseChars_shorter [of r k t] skipWs_Cons_length [of t c1 t1]
    by simp
  assume "parseValue t1 = Some (v, u)" and "skipWs u = c2 # u1"
  then show "length u1 < length s"
    using l parse_shorter(1) [of t1] skipWs_Cons_length [of u c2 u1] by fastforce
qed


section \<open>The data model\<close>

text \<open>
  The payload of a \<open>RESULTS\<close> line as the decoder returns it: an object on which each of
  the properties \<open>styles\<close>, \<open>products\<close> and \<open>productsRaw\<close> is set or absent (\<open>None\<close>).
  \<open>products\<close> holds whatever \<open>JSON.parse\<close> returned.
\<close>

record results =
  styles :: "string list option"
  products :: "json option"
  productsRaw :: "string option"

text \<open>
  A message object, before or after normalization: the properties the program reads, each
  a string or absent. (The field \<open>timestamp\<close> of a normalized message is \<open>null\<close> when there
  is none; \<open>null\<close> and absent are both \<open>None\<close> here.)
\<close>

record message =
  m_id :: "string option"
  m_role :: "string option"
  m_sender :: "string option"
  m_content :: "string option"
  m_text :: "string option"
  m_message :: "string option"
  m_timestamp :: "string option"
  m_results :: "results option"

text \<open>
  Values of the metadata object. \<open>MTime t\<close> stands for the string \<open>toISOString()\<close> gives
  for the time value \<open>t\<close> (milliseconds since the epoch).
\<close>

datatype mval =
    MUndefined
  | MNull
  | MBool bool
  | MNum nat
  | MStr string
  | MTime int
  | MObj "(string \<times> mval) list"

text \<open>
  A transcript (session) object, before or after normalization. The metadata object is
  the list of its properties in creation order.
\<close>

record transcript =
  t_id :: "string option"
  t_sourceFile :: "string option"
  t_messages :: "message list option"
  t_metadata :: "(string \<times> mval) list"

text \<open>\<open>transcript.messages || []\<close>.\<close>

definition messagesOf :: "transcript \<Rightarrow> message list" where
  "messagesOf t = (case t_messages t of Some ms \<Rightarrow> ms | None \<Rightarrow> [])"

text \<open>The content of a message as string concatenation reads it.\<close>

definition contentText :: "message \<Rightarrow> string" where
  "contentText m = (case m_content m of Some c \<Rightarrow> c | None \<Rightarrow> ''undefined'')"

definition emptyMessage :: message where
  "emptyMessage = \<lparr>m_id = None, m_role = None, m_sender = None, m_content = None,
     m_text = None, m_message = None, m_timestamp = None, m_results = None\<rparr>"


section \<open>The results decoder (\<open>parseResultsContent\<close>)\<close>

text \<open>\<open>/STYLES:\s*\[([^\]]+)\]/i\<close> and \<open>/PRODUCTS\s*(\[[\s\S]*\])/i\<close>.\<close>

definition stylesPattern :: re where
  "stylesPattern = cats [word_i ''STYLES:'', Star space, lit CHR ''['',
     Grp 1 (oneOrMore (Lit (\<lambda>c. c \<noteq> CHR '']''))), lit CHR '']'']"

definition productsPattern :: re where
  "productsPattern = cats [word_i ''PRODUCTS'', Star space,
     Grp 1 (cats [lit CHR ''['', Star anyChar, lit CHR '']''])]"

text \<open>\<open>s.trim().replace(/['"]/g, '')\<close> and \<open>s.replace(/'/g, '"')\<close>.\<close>

definition stripQuotes :: "string \<Rightarrow> string" where
  "stripQuotes s = filter (\<lambda>c. c \<noteq> CHR 0x27 \<and> c \<noteq> CHR 0x22) (trim s)"

definition doubleQuotes :: "string \<Rightarrow> string" where
  "doubleQuotes s = map (\<lambda>c. if c = CHR 0x27 then CHR 0x22 else c) s"

definition parseResultsContent :: "string \<Rightarrow> results" where
  "parseResultsContent content =
     (let results0 = \<lparr>styles = None, products = None, productsRaw = None\<rparr>;
          results1 = (case exec stylesPattern content of
                        None \<Rightarrow> results0
                      | Some stylesMatch \<Rightarrow>
                          results0\<lparr>styles := Some (map stripQuotes (split CHR '','' (group stylesMatch 1)))\<rparr>)
      in case exec productsPattern content of
           None \<Rightarrow> results1
         | Some productsMatch \<Rightarrow>
             (case JSON_parse (doubleQuotes (group productsMatch 1)) of
                Inr v \<Rightarrow> results1\<lparr>products := Some v\<rparr>
              | Inl e \<Rightarrow> results1\<lparr>productsRaw := Some (group productsMatch 1)\<rparr>))"


section \<open>The timestamped-log parser (\<open>parseTimestampedTranscript\<close>)\<close>

text \<open>
  \<open>/^\[(\d{4}-\d{2}-\d{2}T[\d:.]+(?:\+[\d:]+)?)\]\s*(USER|AI|RESULTS|CONVERSATION STARTED)(?:\s*:\s*)?(.*)$/i\<close>,
  \<open>/^={10,}$/\<close> and \<open>/session_([a-f0-9-]+)_transcript/i\<close>.
\<close>

definition roleWords :: re where
  "roleWords = alts [word_i ''USER'', word_i ''AI'', word_i ''RESULTS'', word_i ''CONVERSATION STARTED'']"

definition linePattern :: re where
  "linePattern = cats [Bol, lit CHR ''['',
     Grp 1 (cats [digit, digit, digit, digit, lit CHR ''-'', digit, digit, lit CHR ''-'', digit, digit,
                  liti CHR ''T'', oneOrMore (oneOf ''0123456789:.''),
                  optional (cats [lit CHR ''+'', oneOrMore (oneOf ''0123456789:'')])]),
     lit CHR '']'', Star space, Grp 2 roleWords,
     optional (cats [Star space, lit CHR '':'', Star space]),
     Grp 3 (Star dot), Eol]"

definition separatorPattern :: re where
  "separatorPattern = cats [Bol, cats (replicate 10 (lit CHR ''='')), Star (lit CHR ''=''), Eol]"

definition sessionIdPattern :: re where
  "sessionIdPattern = cats [word_i ''session_'',
     Grp 1 (oneOrMore (oneOf ''abcdefABCDEF0123456789-'')), word_i ''_transcript'']"

text \<open>
  The state of the loop over the lines: the array \<open>messages\<close>, the variable
  \<open>currentMessage\<close> (\<open>None\<close> for \<open>null\<close>) and the two date variables. A date variable is
  \<open>None\<close> for \<open>null\<close> and otherwise holds a \<open>Date\<close>, which is a time value or invalid
  (\<open>Some None\<close>).

  \<open>new Date(timestamp)\<close> is the parameter \<open>pd\<close> of the parser: the time value of a
  timestamp, \<open>None\<close> when the string is no valid date. (Outside the date-time format of
  the language the engine decides what a string means.)
\<close>

record pstate =
  p_messages :: "message list"
  p_currentMessage :: "message option"
  p_earliest :: "int option option"
  p_latest :: "int option option"

text \<open>
  \<open>if (!earliestTimestamp || parsedTimestamp < earliestTimestamp) earliestTimestamp = parsedTimestamp\<close>;
  a comparison with an invalid date is false.
\<close>

definition trackEarliest :: "int option option \<Rightarrow> int option \<Rightarrow> int option option" where
  "trackEarliest e p =
     (case e of
        None \<Rightarrow> Some p
      | Some d \<Rightarrow> (case (p, d) of (Some a, Some b) \<Rightarrow> if a < b then Some p else e | _ \<Rightarrow> e))"

definition trackLatest :: "int option option \<Rightarrow> int option \<Rightarrow> int option option" where
  "trackLatest l p =
     (case l of
        None \<Rightarrow> Some p
      | Some d \<Rightarrow> (case (p, d) of (Some a, Some b) \<Rightarrow> if a > b then Some p else l | _ \<Rightarrow> l))"

text \<open>
  The messages pushed so far together with the open one: the array \<open>messages\<close> as it is
  after \<open>if (currentMessage) messages.push(currentMessage)\<close>.
\<close>

definition emitted :: "pstate \<Rightarrow> message list" where
  "emitted st =
     (case p_currentMessage st of Some m \<Rightarrow> p_messages st @ [m] | None \<Rightarrow> p_messages st)"

text \<open>
  The branch of a \<open>RESULTS\<close> line: the payload is decoded and stored on the last element
  of \<open>messages\<close> when there is one and its role is \<open>bot\<close>.
\<close>

definition attachResults :: "message list \<Rightarrow> string \<Rightarrow> message list" where
  "attachResults msgs content =
     (if msgs \<noteq> [] \<and> m_role (last msgs) = Some ''bot''
      then butlast msgs @ [(last msgs)\<lparr>m_results := Some (parseResultsContent content)\<rparr>]
      else msgs)"

text \<open>The body of the loop, for one line.\<close>

definition step :: "(string \<Rightarrow> int option) \<Rightarrow> pstate \<Rightarrow> string \<Rightarrow> pstate" where
  "step pd st line =
     (let trimmedLine = trim line in
      if test separatorPattern trimmedLine \<or> trimmedLine = [] then st
      else
        (case exec linePattern trimmedLine of
           Some match \<Rightarrow>
             (let timestamp = group match 1;
                  role = group match 2;
                  content = group match 3;
                  parsedTimestamp = pd timestamp;
                  st1 = st\<lparr>p_messages := emitted st,
                           p_earliest := trackEarliest (p_earliest st) parsedTimestamp,
                           p_latest := trackLatest (p_latest st) parsedTimestamp\<rparr>;
                  normalizedRole = toUpperCase role
              in if normalizedRole = ''CONVERSATION STARTED'' then st1\<lparr>p_currentMessage := None\<rparr>
                 else if normalizedRole = ''RESULTS'' then
                   st1\<lparr>p_messages := attachResults (emitted st) content, p_currentMessage := None\<rparr>
                 else
                   st1\<lparr>p_currentMessage := Some (emptyMessage
                          \<lparr>m_role := Some (if normalizedRole = ''USER'' then ''user'' else ''bot''),
                           m_content := Some (trim content),
                           m_timestamp := Some timestamp\<rparr>)\<rparr>)
         | None \<Rightarrow>
             (case p_currentMessage st of
                Some m \<Rightarrow>
                  st\<lparr>p_currentMessage := Some (m\<lparr>m_content := Some (contentText m @ '' '' @ trimmedLine)\<rparr>)\<rparr>
              | None \<Rightarrow> st)))"

definition initialState :: pstate where
  "initialState = \<lparr>p_messages = [], p_currentMessage = None, p_earliest = None, p_latest = None\<rparr>"

text \<open>The loop over \<open>content.split('\n')\<close>.\<close>

definition parseLines :: "(string \<Rightarrow> int option) \<Rightarrow> string \<Rightarrow> pstate" where
  "parseLines pd content = foldl (step pd) initialState (split CHR 0x0A content)"

text \<open>
  \<open>d?.toISOString() || null\<close>: \<open>null\<close> for \<open>null\<close>, the string for a time value, and a
  \<open>RangeError\<close> for an invalid date.
\<close>

definition isoOrNull :: "int option option \<Rightarrow> jsError + mval" where
  "isoOrNull d = (case d of None \<Rightarrow> Inr MNull | Some None \<Rightarrow> Inl RangeError | Some (Some t) \<Rightarrow> Inr (MTime t))"

definition sessionIdOf :: "string \<Rightarrow> string" where
  "sessionIdOf filename =
     (case exec sessionIdPattern filename of Some sessionIdMatch \<Rightarrow> group sessionIdMatch 1 | None \<Rightarrow> filename)"

text \<open>
  The whole function. It returns one conversation, or throws where the object it returns
  is built.
\<close>

definition parseTimestampedTranscript ::
    "(string \<Rightarrow> int option) \<Rightarrow> string \<Rightarrow> string \<Rightarrow> jsError + transcript list" where
  "parseTimestampedTranscript pd content filename =
     (let st = parseLines pd content in
      case isoOrNull (p_earliest st) of
        Inl e \<Rightarrow> Inl e
      | Inr start \<Rightarrow>
          (case isoOrNull (p_latest st) of
             Inl e \<Rightarrow> Inl e
           | Inr end \<Rightarrow>
               Inr [\<lparr>t_id = Some (sessionIdOf filename),
                     t_sourceFile = None,
                     t_messages = Some (emitted st),
                     t_metadata = [(''timestamp'', start),
                                   (''dateRange'', MObj [(''start'', start), (''end'', end)]),
                                   (''sourceFile'', MStr filename),
                                   (''format'', MStr ''timestamped'')]\<rparr>]))"


section \<open>Flattening of product arrays (\<open>flattenProducts\<close>)\<close>

text \<open>
  The test \<open>if (v)\<close> on a JSON value. A number is falsy when it is zero as a double:
  the literal is zero or its value is at most \<open>2 ^ -1075\<close>, half the least positive double.
\<close>

fun truthyJ :: "json \<Rightarrow> bool" where
  "truthyJ JNull = False"
| "truthyJ (JBool b) = b"
| "truthyJ (JNum m e) = (m \<noteq> 0 \<and> (e \<ge> 0 \<or> \<bar>m\<bar> * 2 ^ 1075 > 10 ^ nat (- e)))"
| "truthyJ (JStr s) = (s \<noteq> [])"
| "truthyJ (JArr xs) = True"
| "truthyJ (JObj ms) = True"

text \<open>
  The inner function \<open>flatten\<close> pushes onto \<open>flat\<close>; here it returns what it pushes, in
  order. An element of an array that is an array is entered; any other element is kept
  when it is a non-empty string.
\<close>

fun flatten :: "json \<Rightarrow> nat list list" where
  "flatten (JArr arr) =
     concat (map (\<lambda>item. case item of
                            JArr xs \<Rightarrow> flatten item
                          | JStr s \<Rightarrow> if s \<noteq> [] then [s] else []
                          | _ \<Rightarrow> []) arr)"
| "flatten (JStr s) = (if s \<noteq> [] then [s] else [])"
| "flatten JNull = []"
| "flatten (JBool b) = []"
| "flatten (JNum m e) = []"
| "flatten (JObj ms) = []"

definition flattenProducts :: "json \<Rightarrow> nat list list" where
  "flattenProducts v = flatten v"

text \<open>
  The flattening in the words of the specification: the leaves of the nesting of arrays,
  depth first, and of these the non-empty strings.
\<close>

fun leaves :: "json \<Rightarrow> json list" where
  "leaves (JArr xs) = concat (map leaves xs)"
| "leaves JNull = [JNull]"
| "leaves (JBool b) = [JBool b]"
| "leaves (JNum m e) = [JNum m e]"
| "leaves (JStr s) = [JStr s]"
| "leaves (JObj ms) = [JObj ms]"

definition stringLeaves :: "json \<Rightarrow> nat list list" where
  "stringLeaves v = concat (map (\<lambda>l. case l of JStr s \<Rightarrow> if s \<noteq> [] then [s] else [] | _ \<Rightarrow> []) (leaves v))"

text \<open>The code units of a text, to write JSON strings.\<close>

definition str :: "string \<Rightarrow> nat list" where
  "str s = map of_char s"


section \<open>Facts about the matcher\<close>

text \<open>
  The equation for \<open>Star\<close> rewrites a symbolic match without end; it is applied by hand
  in proofs. (Concrete inputs are evaluated from the code equations.)
\<close>

declare ends.simps(6) [simp del]

text \<open>A match never moves backwards.\<close>

lemma ends_length_le:
  "st' \<in> set (ends r st) \<Longrightarrow> length (fst (snd st')) \<le> length (fst (snd st))"
proof (induction r st arbitrary: st' rule: ends.induct)
  case (1 st)
  then show ?case by simp
next
  case (2 p pv cs)
  then show ?case by simp
next
  case (3 p pv c r cs)
  then show ?case by (simp split: if_splits)
next
  case (4 a b st)
  from 4(3) obtain m where m: "m \<in> set (ends a st)" "st' \<in> set (ends b m)" by auto
  from 4(1) [OF m(1)] 4(2) [OF m(1) m(2)] show ?case by simp
next
  case (5 a b st)
  from 5(3) have "st' \<in> set (ends a st) \<or> st' \<in> set (ends b st)" by simp
  with 5(1) 5(2) show ?case by blast
next
  case (6 a st)
  show ?case
  proof (cases "st' = st")
    case True
    then show ?thesis by simp
  next
    case False
    from 6(3) have "st' \<in> set (concat (map (ends (Star a))
       (filter (\<lambda>st'. length (fst (snd st')) < length (fst (snd st))) (ends a st))) @ [st])"
      by (subst (asm) ends.simps(6)) 
    with False obtain m where m: "m \<in> set (ends a st)"
        "length (fst (snd m)) < length (fst (snd st))" "st' \<in> set (ends (Star a) m)"
      by auto
    from 6(2) [of m st'] m have "length (fst (snd st')) \<le> length (fst (snd m))" by simp
    with m(2) show ?thesis by simp
  qed
next
  case (7 n a pv r cs)
  from 7(2) obtain x where x: "x \<in> set (ends a (pv, r, cs))" and s: "fst (snd st') = fst (snd x)"
    by (auto simp: case_prod_beta)
  from 7(1) [OF x] s show ?case by simp
next
  case (8 pv r cs)
  then show ?case by (simp split: if_splits)
next
  case (9 pv r cs)
  then show ?case by (simp split: if_splits)
next
  case (10 pv r cs)
  then show ?case by (simp split: if_splits)
qed

text \<open>A successful search ends a match that started somewhere with no group captured.\<close>

lemma search_SomeD:
  "search r pv s = Some st \<Longrightarrow> \<exists>pv' s'. st \<in> set (ends r (pv', s', []))"
proof (induction s arbitrary: pv)
  case Nil
  then have "st \<in> set (ends r (pv, [], []))" by (auto split: list.splits)
  then show ?case by blast
next
  case (Cons c cs)
  show ?case
  proof (cases "ends r (pv, c # cs, [])")
    case Nil
    with Cons show ?thesis by simp
  next
    case (Cons a list)
    with Cons.prems have "st \<in> set (ends r (pv, c # cs, []))" by simp
    then show ?thesis by blast
  qed
qed

lemma in_ends_Cat:
  "st' \<in> set (ends (Cat a b) st) \<longleftrightarrow> (\<exists>m \<in> set (ends a st). st' \<in> set (ends b m))"
  by simp

lemma productsPattern_group:
  assumes "exec productsPattern content = Some g"
  shows "\<exists>r0. group g 1 = CHR ''['' # r0"
proof -
  from assms obtain st where s: "search productsPattern None content = Some st" and g: "g = snd (snd st)"
    by (auto simp: exec_def)
  from search_SomeD [OF s] obtain pv0 s0 where e: "st \<in> set (ends productsPattern (pv0, s0, []))"
    by blast
  let ?G = "cats [lit CHR ''['', Star anyChar, lit CHR '']'']"
  from e obtain m where m: "st \<in> set (ends (Grp 1 ?G) m)"
    unfolding productsPattern_def by (auto simp: cats_def)
  obtain pv r cs where mm: "m = (pv, r, cs)" by (cases m) auto
  from m mm obtain pv' r' cs' where x: "(pv', r', cs') \<in> set (ends ?G (pv, r, cs))"
      and st: "st = (pv', r', (1, take (length r - length r') r) # cs')"
    by auto
  from x obtain r0 where r: "r = CHR ''['' # r0"
    by (cases r) (auto simp: cats_def lit_def split: if_splits)
  from x r obtain m2 where "m2 \<in> set (ends (Cat (Star anyChar) (Cat (lit CHR '']'') Eps)) (Some CHR ''['', r0, cs))"
      and "(pv', r', cs') = m2"
    by (auto simp: cats_def lit_def split: if_splits)
  from ends_length_le [OF this(1)] this(2) have "length r' \<le> length r0" by auto
  with r st g show ?thesis by (auto simp: group_def Suc_diff_le)
qed



lemma doubleQuotes_Cons: "doubleQuotes (CHR ''['' # r) = CHR ''['' # doubleQuotes r"
  by (simp add: doubleQuotes_def)

lemma JSON_parse_bracket:
  assumes "JSON_parse (CHR ''['' # r) = Inr v"
  shows "\<exists>xs. v = JArr xs"
proof -
  have sk: "skipWs (CHR ''['' # r) = CHR ''['' # r"
    by (simp add: skipWs_def isJsonWs_def)
  from assms obtain t where "parseValue (CHR ''['' # r) = Some (v, t)"
    by (auto simp: JSON_parse_def split: option.splits if_splits)
  then show ?thesis
    by (subst (asm) parseValue.simps) (auto simp: sk split: list.splits if_splits)
qed

section \<open>Facts about flattening\<close>

lemma stringLeaves_JArr: "stringLeaves (JArr xs) = concat (map stringLeaves xs)"
  by (induction xs) (simp_all add: stringLeaves_def)

lemma flatten_leaves: "flatten v = stringLeaves v"
proof (induction v rule: flatten.induct)
  case (1 arr)
  have "\<And>item. item \<in> set arr \<Longrightarrow>
      (case item of JArr xs \<Rightarrow> flatten item | JStr s \<Rightarrow> if s \<noteq> [] then [s] else [] | _ \<Rightarrow> [])
      = stringLeaves item"
    using 1 by (auto simp: stringLeaves_def split: json.splits)
  then have "map (\<lambda>item. case item of JArr xs \<Rightarrow> flatten item | JStr s \<Rightarrow> if s \<noteq> [] then [s] else [] | _ \<Rightarrow> []) arr
      = map stringLeaves arr"
    by (intro map_cong) auto
  then show ?case
    by (simp only: flatten.simps(1) stringLeaves_JArr)
qed (simp_all add: stringLeaves_def)


section \<open>Claims about the results decoder\<close>

text \<open>
  C3, as amended. The claim places the flattening in the decoder. The decoder stores what
  \<open>JSON.parse\<close> returns, nested as it was written; the flattening is done by
  \<open>flattenProducts\<close> of the metrics engine when it reads the payload.

  For every fragment whose \<open>PRODUCTS\<close> bracket expression parses as JSON (after the single
  quotes are turned into double quotes), the decoder sets \<open>products\<close> to the parsed value,
  an array, and leaves \<open>productsRaw\<close> absent; \<open>flattenProducts\<close> of that value is its
  recursive flattening: the non-empty strings among the leaves of the nested arrays, in
  order, duplicates kept.
\<close>

theorem decoder_products_then_flatten:
  assumes "exec productsPattern content = Some productsMatch"
    and "JSON_parse (doubleQuotes (group productsMatch 1)) = Inr v"
  shows "products (parseResultsContent content) = Some v
       \<and> productsRaw (parseResultsContent content) = None
       \<and> (\<exists>xs. v = JArr xs)
       \<and> flattenProducts v = stringLeaves v"
proof -
  from productsPattern_group [OF assms(1)] obtain r0 where "group productsMatch 1 = CHR ''['' # r0"
    by blast
  with assms(2) have "\<exists>xs. v = JArr xs"
    by (auto simp: doubleQuotes_Cons dest: JSON_parse_bracket)
  moreover have "products (parseResultsContent content) = Some v"
    and "productsRaw (parseResultsContent content) = None"
    using assms by (auto simp: parseResultsContent_def Let_def split: option.splits)
  ultimately show ?thesis
    by (simp add: flattenProducts_def flatten_leaves)
qed

text \<open>
  The two fragments of the claim: \<open>PRODUCTS [['a','b'],['c']]\<close> is stored nested and
  flattens to \<open>a, b, c\<close>; \<open>PRODUCTS [['a','a'],['b']]\<close> flattens to \<open>a, a, b\<close>.
\<close>

theorem decoder_products_then_flatten_witness:
  "products (parseResultsContent ''PRODUCTS [['a','b'],['c']]'')
     = Some (JArr [JArr [JStr (str ''a''), JStr (str ''b'')], JArr [JStr (str ''c'')]])
   \<and> flattenProducts (JArr [JArr [JStr (str ''a''), JStr (str ''b'')], JArr [JStr (str ''c'')]])
     = [str ''a'', str ''b'', str ''c'']
   \<and> products (parseResultsContent ''PRODUCTS [['a','a'],['b']]'')
     = Some (JArr [JArr [JStr (str ''a''), JStr (str ''a'')], JArr [JStr (str ''b'')]])
   \<and> flattenProducts (JArr [JArr [JStr (str ''a''), JStr (str ''a'')], JArr [JStr (str ''b'')]])
     = [str ''a'', str ''a'', str ''b'']"
proof -
  let ?v1 = "JArr [JArr [JStr (str ''a''), JStr (str ''b'')], JArr [JStr (str ''c'')]]"
  let ?v2 = "JArr [JArr [JStr (str ''a''), JStr (str ''a'')], JArr [JStr (str ''b'')]]"
  have m1: "exec productsPattern ''PRODUCTS [['a','b'],['c']]'' = Some [(1, ''[['a','b'],['c']]'')]"
    by code_simp
  have p1: "JSON_parse (doubleQuotes (group [(1, ''[['a','b'],['c']]'')] 1)) = Inr ?v1"
    by code_simp
  have m2: "exec productsPattern ''PRODUCTS [['a','a'],['b']]'' = Some [(1, ''[['a','a'],['b']]'')]"
    by code_simp
  have p2: "JSON_parse (doubleQuotes (group [(1, ''[['a','a'],['b']]'')] 1)) = Inr ?v2"
    by code_simp
  have l1: "stringLeaves ?v1 = [str ''a'', str ''b'', str ''c'']"
    by code_simp
  have l2: "stringLeaves ?v2 = [str ''a'', str ''a'', str ''b'']"
    by code_simp
  from decoder_products_then_flatten [OF m1 p1] decoder_products_then_flatten [OF m2 p2] l1 l2
  show ?thesis by simp
qed

text \<open>
  The claim as stated fails: the decoder's \<open>products\<close> for \<open>PRODUCTS [['a','b'],['c']]\<close> is
  not the flat list \<open>['a','b','c']\<close>.
\<close>

theorem decoder_does_not_flatten:
  "products (parseResultsContent ''PRODUCTS [['a','b'],['c']]'')
     \<noteq> Some (JArr [JStr (str ''a''), JStr (str ''b''), JStr (str ''c'')])"
  by code_simp





section \<open>A date function for closed examples\<close>

text \<open>
  The parser takes \<open>new Date\<close> as a parameter. The examples instantiate it with the time
  value of a timestamp written in full in the date-time format of the language,
  \<open>YYYY-MM-DDTHH:mm:ss.sss+HH:mm\<close> (or with \<open>-\<close> before the offset), which every engine
  reads alike; a field out of range makes the date invalid. Any other spelling is no date
  for this function, and no example uses one.
\<close>

definition num2 :: "char \<Rightarrow> char \<Rightarrow> nat option" where
  "num2 a b = (if isDigit a \<and> isDigit b then Some (10 * digitVal a + digitVal b) else None)"

definition isLeapYear :: "nat \<Rightarrow> bool" where
  "isLeapYear y = (y mod 4 = 0 \<and> (y mod 100 \<noteq> 0 \<or> y mod 400 = 0))"

definition daysInMonth :: "nat \<Rightarrow> nat \<Rightarrow> nat" where
  "daysInMonth y m =
     (if m = 2 then (if isLeapYear y then 29 else 28)
      else if m = 4 \<or> m = 6 \<or> m = 9 \<or> m = 11 then 30 else 31)"

text \<open>Days from the first of January 1970 to a day of the civil calendar.\<close>

definition daysFromCivil :: "int \<Rightarrow> int \<Rightarrow> int \<Rightarrow> int" where
  "daysFromCivil y m d =
     (let y1 = (if m \<le> 2 then y - 1 else y);
          era = y1 div 400;
          yoe = y1 - era * 400;
          doy = (153 * (if m > 2 then m - 3 else m + 9) + 2) div 5 + d - 1;
          doe = yoe * 365 + yoe div 4 - yoe div 100 + doy
      in era * 146097 + doe - 719468)"

definition isoDate :: "string \<Rightarrow> int option" where
  "isoDate s =
     (case s of
        [y1, y2, y3, y4, d1, mo1, mo2, d2, da1, da2, t, h1, h2, c1, mi1, mi2, c2, s1, s2, p,
         f1, f2, f3, sg, oh1, oh2, c3, om1, om2] \<Rightarrow>
          (case (num2 y1 y2, num2 y3 y4, num2 mo1 mo2, num2 da1 da2, num2 h1 h2, num2 mi1 mi2,
                 num2 s1 s2, num2 f1 f2, num2 CHR ''0'' f3, num2 oh1 oh2, num2 om1 om2) of
             (Some yh, Some yl, Some mo, Some da, Some h, Some mi, Some se, Some fh, Some fl,
              Some oh, Some om) \<Rightarrow>
               (let y = 100 * yh + yl; ms = 10 * fh + fl in
                if d1 = CHR ''-'' \<and> d2 = CHR ''-'' \<and> t = CHR ''T'' \<and> c1 = CHR '':'' \<and> c2 = CHR '':''
                   \<and> p = CHR ''.'' \<and> (sg = CHR ''+'' \<or> sg = CHR ''-'') \<and> c3 = CHR '':''
                   \<and> 1 \<le> mo \<and> mo \<le> 12 \<and> 1 \<le> da \<and> da \<le> daysInMonth y mo
                   \<and> (h \<le> 23 \<or> (h = 24 \<and> mi = 0 \<and> se = 0 \<and> ms = 0))
                   \<and> mi \<le> 59 \<and> se \<le> 59 \<and> oh \<le> 23 \<and> om \<le> 59
                then Some (daysFromCivil (int y) (int mo) (int da) * 86400000
                           + int h * 3600000 + int mi * 60000 + int se * 1000 + int ms
                           - (if sg = CHR ''+'' then 1 else - 1) * (int oh * 60 + int om) * 60000)
                else None)
           | _ \<Rightarrow> None)
      | _ \<Rightarrow> None)"


section \<open>Facts about the timestamped-log parser\<close>
















lemma parseTimestampedTranscript_messages:
  assumes "parseTimestampedTranscript pd content filename = Inr ts"
  shows "\<exists>t. ts = [t] \<and> t_messages t = Some (emitted (parseLines pd content)) \<and> t_id t = Some (sessionIdOf filename)"
  using assms by (auto simp: parseTimestampedTranscript_def Let_def split: sum.splits)




section \<open>Claims about the timestamped-log parser\<close>











section \<open>The loose-text parser (\<open>parseSimpleTextTranscript\<close>)\<close>

text \<open>
  \<open>/^(user|customer|human|visitor)\s*[:\-]\s*(.+)/i\<close>,
  \<open>/^(bot|assistant|agent|chatbot|ai)\s*[:\-]\s*(.+)/i\<close> and
  \<open>/^(session|conversation)\s*[:\-]\s*(.+)/i\<close>.
\<close>

definition prefixed :: "string list \<Rightarrow> re" where
  "prefixed ws = cats [Bol, Grp 1 (alts (map word_i ws)), Star space, oneOf '':-'', Star space,
     Grp 2 (oneOrMore dot)]"

definition userPattern :: re where
  "userPattern = prefixed [''user'', ''customer'', ''human'', ''visitor'']"

definition botPattern :: re where
  "botPattern = prefixed [''bot'', ''assistant'', ''agent'', ''chatbot'', ''ai'']"

definition sessionPattern :: re where
  "sessionPattern = prefixed [''session'', ''conversation'']"

text \<open>The state of the loop: the array \<open>conversations\<close> and \<open>currentConversation\<close>.\<close>

record sstate =
  s_conversations :: "transcript list"
  s_current :: "transcript"

definition newConversation :: "string \<Rightarrow> transcript" where
  "newConversation i = \<lparr>t_id = Some i, t_sourceFile = None, t_messages = Some [], t_metadata = []\<rparr>"

definition pushMessage :: "transcript \<Rightarrow> message \<Rightarrow> transcript" where
  "pushMessage t m = t\<lparr>t_messages := Some (messagesOf t @ [m])\<rparr>"

text \<open>\<open>if (currentConversation.messages.length > 0) conversations.push(currentConversation)\<close>.\<close>

definition closed :: "sstate \<Rightarrow> transcript list" where
  "closed st =
     (if messagesOf (s_current st) \<noteq> [] then s_conversations st @ [s_current st]
      else s_conversations st)"

definition simpleStep :: "sstate \<Rightarrow> string \<Rightarrow> sstate" where
  "simpleStep st line =
     (case exec sessionPattern line of
        Some sessionMatch \<Rightarrow>
          \<lparr>s_conversations = closed st, s_current = newConversation (trim (group sessionMatch 2))\<rparr>
      | None \<Rightarrow>
          (case exec userPattern line of
             Some userMatch \<Rightarrow>
               st\<lparr>s_current := pushMessage (s_current st)
                     (emptyMessage\<lparr>m_role := Some ''user'', m_content := Some (trim (group userMatch 2))\<rparr>)\<rparr>
           | None \<Rightarrow>
               (case exec botPattern line of
                  Some botMatch \<Rightarrow>
                    st\<lparr>s_current := pushMessage (s_current st)
                          (emptyMessage\<lparr>m_role := Some ''bot'', m_content := Some (trim (group botMatch 2))\<rparr>)\<rparr>
                | None \<Rightarrow>
                    if trim line \<noteq> [] \<and> messagesOf (s_current st) \<noteq> [] then
                      st\<lparr>s_current := (s_current st)\<lparr>t_messages :=
                            Some (butlast (messagesOf (s_current st)) @
                              [(last (messagesOf (s_current st)))
                                 \<lparr>m_content := Some (contentText (last (messagesOf (s_current st)))
                                                       @ '' '' @ trim line)\<rparr>])\<rparr>\<rparr>
                    else st)))"

definition parseSimpleTextTranscript :: "string \<Rightarrow> string \<Rightarrow> transcript list" where
  "parseSimpleTextTranscript content filename =
     (let lines = filter (\<lambda>line. trim line \<noteq> []) (split CHR 0x0A content);
          st = foldl simpleStep \<lparr>s_conversations = [], s_current = newConversation filename\<rparr> lines;
          conversations = closed st
      in if conversations \<noteq> [] then conversations
         else [\<lparr>t_id = Some filename, t_sourceFile = None,
                 t_messages = Some [emptyMessage\<lparr>m_role := Some ''unknown'', m_content := Some content\<rparr>],
                 t_metadata = []\<rparr>])"


section \<open>Choosing the grammar (\<open>parseTextTranscript\<close>, \<open>parseTranscriptContent\<close>)\<close>

text \<open>
  \<open>/\[(\d{4}-\d{2}-\d{2}T[\d:.]+\+[\d:]+)\]\s*(USER|AI|RESULTS|CONVERSATION STARTED)(?:\s*:\s*)?/i\<close>,
  tested anywhere in the content.
\<close>

definition timestampPattern :: re where
  "timestampPattern = cats [lit CHR ''['',
     Grp 1 (cats [digit, digit, digit, digit, lit CHR ''-'', digit, digit, lit CHR ''-'', digit, digit,
                  liti CHR ''T'', oneOrMore (oneOf ''0123456789:.''),
                  lit CHR ''+'', oneOrMore (oneOf ''0123456789:'')]),
     lit CHR '']'', Star space, Grp 2 roleWords,
     optional (cats [Star space, lit CHR '':'', Star space])]"

definition parseTextTranscript ::
    "(string \<Rightarrow> int option) \<Rightarrow> string \<Rightarrow> string \<Rightarrow> jsError + transcript list" where
  "parseTextTranscript pd content filename =
     (if test timestampPattern content then parseTimestampedTranscript pd content filename
      else Inr (parseSimpleTextTranscript content filename))"

text \<open>
  \<open>parseTranscriptContent\<close> tries \<open>JSON.parse\<close> first. When the content is JSON, the
  sessions are built from the parsed value by reads of properties of untyped values;
  this development keeps the value (\<open>FromJson\<close>) and does not type it. Those reads throw,
  inside the \<open>try\<close>, when the value is \<open>null\<close> or an array with a \<open>null\<close> element; then, and
  when the content is not JSON, the content is parsed as text.
\<close>

datatype parsed =
    FromJson json
  | FromText "jsError + transcript list"

definition jsonBranchThrows :: "json \<Rightarrow> bool" where
  "jsonBranchThrows v = (case v of JNull \<Rightarrow> True | JArr items \<Rightarrow> JNull \<in> set items | _ \<Rightarrow> False)"

definition parseTranscriptContent ::
    "(string \<Rightarrow> int option) \<Rightarrow> string \<Rightarrow> string \<Rightarrow> parsed" where
  "parseTranscriptContent pd content filename =
     (case JSON_parse content of
        Inr v \<Rightarrow>
          if jsonBranchThrows v then FromText (parseTextTranscript pd content filename)
          else FromJson v
      | Inl e \<Rightarrow> FromText (parseTextTranscript pd content filename))"

text \<open>
  One entry of the list \<open>parseUploadedFiles\<close> returns, for a file that is not an archive,
  given as its name and its text. An error thrown by the parser is caught and recorded
  with its message. The result is \<open>None\<close> for the inputs left out here: archives and
  JSON content.
\<close>

record parsedResult =
  pr_filename :: string
  pr_transcripts :: "transcript list"
  pr_error :: "string option"

definition errorMessage :: "jsError \<Rightarrow> string" where
  "errorMessage e =
     (case e of
        RangeError \<Rightarrow> ''Invalid time value''
      | SyntaxError \<Rightarrow> ''Unexpected token''
      | TypeError \<Rightarrow> ''Cannot read properties of undefined'')"

definition endsWith :: "string \<Rightarrow> string \<Rightarrow> bool" where
  "endsWith s suffix = startsWith (rev s) (rev suffix)"

definition parseUploadedFile ::
    "(string \<Rightarrow> int option) \<Rightarrow> string \<times> string \<Rightarrow> parsedResult option" where
  "parseUploadedFile pd file =
     (if endsWith (fst file) ''.zip'' then None
      else case parseTranscriptContent pd (snd file) (fst file) of
             FromJson v \<Rightarrow> None
           | FromText (Inr ts) \<Rightarrow>
               Some \<lparr>pr_filename = fst file, pr_transcripts = ts, pr_error = None\<rparr>
           | FromText (Inl e) \<Rightarrow>
               Some \<lparr>pr_filename = fst file, pr_transcripts = [], pr_error = Some (errorMessage e)\<rparr>)"

definition parseUploadedFiles ::
    "(string \<Rightarrow> int option) \<Rightarrow> (string \<times> string) list \<Rightarrow> parsedResult list option" where
  "parseUploadedFiles pd files = those (map (parseUploadedFile pd) files)"


section \<open>The session normalizer (\<open>normalizeTranscripts\<close>)\<close>

definition normalizeRole :: "string \<Rightarrow> string" where
  "normalizeRole role =
     (let normalized = toLowerCase role in
      if normalized \<in> set [''user'', ''customer'', ''human'', ''visitor'', ''client''] then ''user''
      else if normalized \<in> set [''bot'', ''assistant'', ''agent'', ''chatbot'', ''ai'', ''system''] then ''bot''
      else ''unknown'')"

text \<open>The decimal digits of an index, for \<open>`msg-${index}`\<close>.\<close>

function showNat :: "nat \<Rightarrow> string" where
  "showNat n =
     (if n < 10 then [''0123456789'' ! n] else showNat (n div 10) @ [''0123456789'' ! (n mod 10)])"
  by pat_completeness auto
termination
  by (relation "measure id") auto

declare showNat.simps [simp del]

definition valueOr :: "string option \<Rightarrow> string \<Rightarrow> string" where
  "valueOr x d = (case orElse x (Some d) of Some v \<Rightarrow> v | None \<Rightarrow> d)"

definition normalizeMessage :: "nat \<times> message \<Rightarrow> message" where
  "normalizeMessage im =
     (case im of (index, msg) \<Rightarrow>
        \<lparr>m_id = Some (valueOr (m_id msg) (''msg-'' @ showNat index)),
         m_role = Some (normalizeRole (valueOr (orElse (m_role msg) (m_sender msg)) ''unknown'')),
         m_sender = None,
         m_content = Some (valueOr (orElse (orElse (m_content msg) (m_text msg)) (m_message msg)) []),
         m_text = None,
         m_message = None,
         m_timestamp = (if truthy (m_timestamp msg) then m_timestamp msg else None),
         m_results = m_results msg\<rparr>)"

definition normalizeMessages :: "message list \<Rightarrow> message list" where
  "normalizeMessages messages = map normalizeMessage (enumerate 0 messages)"

definition escalationPhrases :: "string list" where
  "escalationPhrases = [''speak to a human'', ''speak to someone'', ''transfer me'', ''real person'',
     ''human agent'', ''customer service'', ''supervisor'', ''manager'', ''escalate'',
     ''can't help'', ''don't understand'']"

definition orderPhrases :: "string list" where
  "orderPhrases = [''order number'', ''order status'', ''tracking'', ''shipment'', ''delivery'',
     ''purchase'', ''bought'', ''ordered'', ''payment'', ''receipt'']"

text \<open>\<open>messages.map(m => (m.content || '').toLowerCase()).join(' ')\<close>.\<close>

definition joinedContent :: "message list \<Rightarrow> string" where
  "joinedContent messages = join '' '' (map (\<lambda>m. toLowerCase (valueOr (m_content m) [])) messages)"

definition detectEscalation :: "message list \<Rightarrow> bool" where
  "detectEscalation messages = list_ex (\<lambda>phrase. includesStr (joinedContent messages) phrase) escalationPhrases"

definition detectOrder :: "message list \<Rightarrow> bool" where
  "detectOrder messages = list_ex (\<lambda>phrase. includesStr (joinedContent messages) phrase) orderPhrases"

definition countUserTurns :: "message list \<Rightarrow> nat" where
  "countUserTurns messages = length (filter (\<lambda>m. normalizeRole (valueOr (m_role m) []) = ''user'') messages)"

definition countBotTurns :: "message list \<Rightarrow> nat" where
  "countBotTurns messages = length (filter (\<lambda>m. normalizeRole (valueOr (m_role m) []) = ''bot'') messages)"

text \<open>
  The object \<open>normalized\<close> built for one transcript of the file \<open>filename\<close>, with the id
  \<open>i\<close>. The metadata object is the spread of the old one followed by the five derived
  properties: a property that exists keeps its place and takes the new value, a new one
  goes to the end.
\<close>

definition normalizeOne :: "string \<Rightarrow> string \<Rightarrow> transcript \<Rightarrow> transcript" where
  "normalizeOne filename i transcript =
     \<lparr>t_id = Some i,
      t_sourceFile = Some filename,
      t_messages = Some (normalizeMessages (messagesOf transcript)),
      t_metadata = foldl (\<lambda>md kv. AList.update (fst kv) (snd kv) md) (t_metadata transcript)
        [(''messageCount'', MNum (length (messagesOf transcript))),
         (''hasEscalation'', MBool (detectEscalation (messagesOf transcript))),
         (''hasOrder'', MBool (detectOrder (messagesOf transcript))),
         (''userTurns'', MNum (countUserTurns (messagesOf transcript))),
         (''botTurns'', MNum (countBotTurns (messagesOf transcript)))]\<rparr>"

text \<open>
  The transcripts the two loops visit, with the name of their file: those of the results
  without an error.
\<close>

definition pending :: "parsedResult list \<Rightarrow> (string \<times> transcript) list" where
  "pending parsedResults =
     concat (map (\<lambda>result. if truthy (pr_error result) then []
                             else map (\<lambda>t. (pr_filename result, t)) (pr_transcripts result))
                 parsedResults)"

text \<open>
  \<open>id: transcript.id || generateId()\<close>. \<open>generateId\<close> reads the clock and a random number;
  \<open>gen k\<close> is what its call number \<open>k\<close> of the run returns.
\<close>

fun normalizeFrom :: "(nat \<Rightarrow> string) \<Rightarrow> nat \<Rightarrow> (string \<times> transcript) list \<Rightarrow> transcript list" where
  "normalizeFrom gen k [] = []"
| "normalizeFrom gen k (ft # rest) =
     (if truthy (t_id (snd ft))
      then normalizeOne (fst ft) (valueOr (t_id (snd ft)) []) (snd ft) # normalizeFrom gen k rest
      else normalizeOne (fst ft) (gen k) (snd ft) # normalizeFrom gen (Suc k) rest)"

definition normalizeTranscripts :: "(nat \<Rightarrow> string) \<Rightarrow> parsedResult list \<Rightarrow> transcript list" where
  "normalizeTranscripts gen parsedResults = normalizeFrom gen 0 (pending parsedResults)"

text \<open>
  Normalized sessions handed to the normalizer again: each as the one transcript of a
  result of its source file.
\<close>

definition asParsed :: "transcript list \<Rightarrow> parsedResult list" where
  "asParsed ts = map (\<lambda>t. \<lparr>pr_filename = valueOr (t_sourceFile t) [], pr_transcripts = [t], pr_error = None\<rparr>) ts"


section \<open>Objects used as tables\<close>

text \<open>
  The engine counts in plain objects keyed by strings. The own properties of such an
  object are listed here in creation order; \<open>Object.keys\<close>, \<open>Object.values\<close> and
  \<open>Object.entries\<close> enumerate the keys that are array indices first, in ascending numeric
  order, and then the other keys in creation order. An array index is the canonical
  decimal numeral of a number below \<open>2 ^ 32 - 1\<close>.
\<close>

definition arrayIndex :: "string \<Rightarrow> int option" where
  "arrayIndex k =
     (if k \<noteq> [] \<and> list_all isDigit k \<and> (k = ''0'' \<or> hd k \<noteq> CHR ''0'') \<and> decimal k < 4294967295
      then Some (decimal k) else None)"

definition indexOf :: "string \<Rightarrow> int" where
  "indexOf k = (case arrayIndex k of Some n \<Rightarrow> n | None \<Rightarrow> 0)"

definition propertyOrder :: "(string \<times> 'v) list \<Rightarrow> (string \<times> 'v) list" where
  "propertyOrder ps =
     sort_key (\<lambda>kv. indexOf (fst kv)) (filter (\<lambda>kv. arrayIndex (fst kv) \<noteq> None) ps)
     @ filter (\<lambda>kv. arrayIndex (fst kv) = None) ps"

text \<open>The elements of a list without repetitions, each at its first place (a \<open>Set\<close>).\<close>

definition distinctFirst :: "'a list \<Rightarrow> 'a list" where
  "distinctFirst xs = rev (remdups (rev xs))"

text \<open>
  The ids of products are strings of code units. Such a key is an array index when it is
  one as a string of characters; the keys of a table of products are enumerated in the
  same way.
\<close>

definition unitsIndex :: "nat list \<Rightarrow> int option" where
  "unitsIndex k = (if list_all (\<lambda>u. u < 256) k then arrayIndex (map char_of k) else None)"

definition propertyOrderU :: "(nat list \<times> 'v) list \<Rightarrow> (nat list \<times> 'v) list" where
  "propertyOrderU ps =
     sort_key (\<lambda>kv. case unitsIndex (fst kv) of Some n \<Rightarrow> n | None \<Rightarrow> 0)
       (filter (\<lambda>kv. unitsIndex (fst kv) \<noteq> None) ps)
     @ filter (\<lambda>kv. unitsIndex (fst kv) = None) ps"

text \<open>
  \<open>table[k] = (table[k] || 0) + 1\<close> for a key that is no inherited name: a count that is
  stored is at least one.
\<close>

definition bumpCount :: "('k \<times> nat) list \<Rightarrow> 'k \<Rightarrow> ('k \<times> nat) list" where
  "bumpCount table k =
     (case map_of table k of
        Some n \<Rightarrow> AList.update k (n + 1) table
      | None \<Rightarrow> table @ [(k, 1)])"

text \<open>
  \<open>if (!table[k]) table[k] = new Set(); table[k].add(q)\<close> for a key that is no inherited
  name: a \<open>Set\<close> keeps its elements in the order in which they were first added.
\<close>

definition addQuery :: "('k \<times> string list) list \<Rightarrow> 'k \<times> string \<Rightarrow> ('k \<times> string list) list" where
  "addQuery table kq =
     (case map_of table (fst kq) of
        Some qs \<Rightarrow> AList.update (fst kq) (if snd kq \<in> set qs then qs else qs @ [snd kq]) table
      | None \<Rightarrow> table @ [(fst kq, [snd kq])])"

text \<open>
  A read \<open>table[k]\<close> of a key that is no own property finds the properties an object
  inherits from \<open>Object.prototype\<close>; these are their names.
\<close>

definition inheritedNames :: "string list" where
  "inheritedNames = [''constructor'', ''__defineGetter__'', ''__defineSetter__'', ''hasOwnProperty'',
     ''__lookupGetter__'', ''__lookupSetter__'', ''isPrototypeOf'', ''propertyIsEnumerable'',
     ''toString'', ''valueOf'', ''__proto__'', ''toLocaleString'']"


section \<open>The metrics engine (\<open>extractRuleBasedMetrics\<close>)\<close>

text \<open>
  The snapshot, with the fields this development computes. Left out are the fields that
  are formatted dates, rounded quotients, local times and the top lists of terms and
  styles. A field that the object for the empty input does not have is an
  option, \<open>None\<close> when the property is absent.
\<close>

record queryEntry =
  query :: string
  frequency :: nat

record sessionOverview =
  totalSessions :: nat

record turnAnalysis =
  singleTurnSessions :: nat
  multiTurnSessions :: nat
  maxTurnsInSession :: nat
  totalUserMessages :: "nat option"
  totalBotMessages :: "nat option"

record queryLengthAnalysis =
  singleWordQueries :: nat
  multiWordQueries :: nat

record queryAnalysis =
  totalQueries :: nat
  uniqueQueryCount :: "nat option"
  uniqueQueries :: "queryEntry list"
  allUniqueQueries :: "queryEntry list option"
  queryLengthAnalysis :: queryLengthAnalysis

record styleAnalysis =
  totalStyles :: nat
  totalStyleMentions :: "nat option"
  allStyles :: "string list option"

text \<open>An element of \<open>topRecommendedProducts\<close>: \<open>{ productId, frequency, associatedQueries }\<close>.\<close>

record productEntry =
  tp_productId :: "nat list"
  tp_frequency :: nat
  tp_associatedQueries :: "string list"

record productInsights =
  totalProductsRecommended :: nat
  uniqueProductsRecommended :: nat
  topRecommendedProducts :: "productEntry list"
  allProductIds :: "nat list list option"
  styleAnalysis :: styleAnalysis

text \<open>
  \<open>avgProductsReturned\<close> is kept as the pair of \<open>totalProductsInResults\<close> and
  \<open>resultsCount\<close>; the program returns their quotient rounded to one decimal, and \<open>0\<close>
  when the count is \<open>0\<close>.
\<close>

record botResponseAnalysis =
  sessionsWithResults :: nat
  sessionsWithoutResults :: nat
  avgProductsReturned :: "nat \<times> nat"

record dataQualityNotes =
  totalTranscriptsAnalyzed :: nat
  extractionMethod :: string
  dataLimitations :: "string list option"

record metrics =
  sessionOverview :: sessionOverview
  turnAnalysis :: turnAnalysis
  queryAnalysis :: queryAnalysis
  productInsights :: productInsights
  botResponseAnalysis :: botResponseAnalysis
  dataQualityNotes :: dataQualityNotes

definition getEmptyMetrics :: metrics where
  "getEmptyMetrics =
     \<lparr>sessionOverview = \<lparr>totalSessions = 0\<rparr>,
      turnAnalysis = \<lparr>singleTurnSessions = 0, multiTurnSessions = 0, maxTurnsInSession = 0,
                      totalUserMessages = None, totalBotMessages = None\<rparr>,
      queryAnalysis = \<lparr>totalQueries = 0, uniqueQueryCount = None, uniqueQueries = [],
                       allUniqueQueries = None,
                       queryLengthAnalysis = \<lparr>singleWordQueries = 0, multiWordQueries = 0\<rparr>\<rparr>,
      productInsights = \<lparr>totalProductsRecommended = 0, uniqueProductsRecommended = 0,
                         topRecommendedProducts = [], allProductIds = None,
                         styleAnalysis = \<lparr>totalStyles = 0, totalStyleMentions = None, allStyles = None\<rparr>\<rparr>,
      botResponseAnalysis = \<lparr>sessionsWithResults = 0, sessionsWithoutResults = 0,
                             avgProductsReturned = (0, 0)\<rparr>,
      dataQualityNotes = \<lparr>totalTranscriptsAnalyzed = 0, extractionMethod = ''rule-based'',
                          dataLimitations = None\<rparr>\<rparr>"

definition extractSessionOverview :: "transcript list \<Rightarrow> sessionOverview" where
  "extractSessionOverview transcripts = \<lparr>totalSessions = length transcripts\<rparr>"

definition userTurnCount :: "transcript \<Rightarrow> nat" where
  "userTurnCount t = length (filter (\<lambda>m. m_role m = Some ''user'') (messagesOf t))"

definition extractTurnAnalysis :: "transcript list \<Rightarrow> turnAnalysis" where
  "extractTurnAnalysis transcripts =
     \<lparr>singleTurnSessions = length (filter (\<lambda>t. userTurnCount t = 1) transcripts),
      multiTurnSessions = length (filter (\<lambda>t. userTurnCount t > 1) transcripts),
      maxTurnsInSession = foldl max 0 (map userTurnCount transcripts),
      totalUserMessages = Some (sum_list (map userTurnCount transcripts)),
      totalBotMessages = Some (sum_list (map (\<lambda>t. length (filter (\<lambda>m. m_role m = Some ''bot'') (messagesOf t))) transcripts))\<rparr>"

text \<open>
  The array \<open>allQueries\<close>: the trimmed content of every message of role \<open>user\<close> whose
  content is not empty, in order.
\<close>

definition allQueriesOf :: "transcript list \<Rightarrow> string list" where
  "allQueriesOf transcripts =
     concat (map (\<lambda>t. map (\<lambda>m. trim (valueOr (m_content m) []))
                          (filter (\<lambda>m. m_role m = Some ''user'' \<and> truthy (m_content m)) (messagesOf t)))
                 transcripts)"

text \<open>
  One step of the counting in the object \<open>queryFrequency\<close>. The read
  \<open>queryFrequency[normalizedQuery]\<close> finds an own property, or nothing, or a property
  inherited from \<open>Object.prototype\<close>. Of the inherited names only \<open>__proto__\<close> and
  \<open>constructor\<close> are in lower case. For \<open>__proto__\<close> the read gives the prototype, the
  write is the setter and creates no own property: the query gets no entry. For
  \<open>constructor\<close> the read gives a function, which becomes an entry whose frequency is not
  a number; then the comparison function of the sort is inconsistent and the order of
  the result is left to the engine. That case is outside this development
  (\<open>extractQueryAnalysis\<close> is \<open>None\<close>).
\<close>

definition bumpQuery :: "(string \<times> queryEntry) list \<Rightarrow> string \<Rightarrow> (string \<times> queryEntry) list" where
  "bumpQuery table q =
     (let normalizedQuery = toLowerCase q in
      if normalizedQuery = ''__proto__'' then table
      else case map_of table normalizedQuery of
             Some e \<Rightarrow> AList.update normalizedQuery (e\<lparr>frequency := frequency e + 1\<rparr>) table
           | None \<Rightarrow> table @ [(normalizedQuery, \<lparr>query = q, frequency = 1\<rparr>)])"

definition queryFrequencyOf :: "string list \<Rightarrow> (string \<times> queryEntry) list" where
  "queryFrequencyOf qs = foldl bumpQuery [] qs"

text \<open>
  \<open>Object.values(queryFrequency).sort((a, b) => b.frequency - a.frequency)\<close>; the sort of
  the language is stable.
\<close>

definition sortByFrequency :: "queryEntry list \<Rightarrow> queryEntry list" where
  "sortByFrequency es = sort_key (\<lambda>e. - int (frequency e)) es"

definition uniqueQueriesOf :: "string list \<Rightarrow> queryEntry list" where
  "uniqueQueriesOf qs = sortByFrequency (map snd (propertyOrder (queryFrequencyOf qs)))"

definition wordCount :: "string \<Rightarrow> nat" where
  "wordCount q = length (splitWords q)"

definition extractQueryAnalysis :: "transcript list \<Rightarrow> queryAnalysis option" where
  "extractQueryAnalysis transcripts =
     (let allQueries = allQueriesOf transcripts;
          unique = uniqueQueriesOf allQueries
      in if ''constructor'' \<in> set (map toLowerCase allQueries) then None
         else Some
           \<lparr>totalQueries = length allQueries,
            uniqueQueryCount = Some (length unique),
            uniqueQueries = take 50 unique,
            allUniqueQueries = Some unique,
            queryLengthAnalysis =
              \<lparr>singleWordQueries = length (filter (\<lambda>q. wordCount q = 1) allQueries),
               multiWordQueries = length (filter (\<lambda>q. wordCount q \<noteq> 1) allQueries)\<rparr>\<rparr>)"

text \<open>
  What one message adds to the array \<open>allProductIds\<close> of \<open>extractProductInsights\<close>, and
  to the array \<open>allStyles\<close>.
\<close>

definition messageProducts :: "message \<Rightarrow> nat list list" where
  "messageProducts msg =
     (if m_role msg = Some ''bot'' then
        (case m_results msg of
           None \<Rightarrow> []
         | Some r \<Rightarrow>
             (case products r of
                None \<Rightarrow> []
              | Some v \<Rightarrow> if truthyJ v then flattenProducts v else []))
      else [])"

definition messageStyles :: "message \<Rightarrow> string list" where
  "messageStyles msg =
     (if m_role msg = Some ''bot'' then
        (case m_results msg of
           None \<Rightarrow> []
         | Some r \<Rightarrow>
             (case styles r of
                None \<Rightarrow> []
              | Some ss \<Rightarrow> map trim (filter (\<lambda>style. style \<noteq> [] \<and> trim style \<noteq> []) ss)))
      else [])"

definition productOccurrences :: "transcript list \<Rightarrow> nat list list" where
  "productOccurrences transcripts =
     concat (map (\<lambda>t. concat (map messageProducts (messagesOf t))) transcripts)"

definition styleOccurrences :: "transcript list \<Rightarrow> string list" where
  "styleOccurrences transcripts =
     concat (map (\<lambda>t. concat (map messageStyles (messagesOf t))) transcripts)"

text \<open>
  The user query of a session, \<open>messages.find(m => m.role === 'user')?.content || 'unknown'\<close>,
  and the pairs of a product and the user query of its session, in the order of the loop.
\<close>

definition userQueryOf :: "transcript \<Rightarrow> string" where
  "userQueryOf t =
     (case find (\<lambda>m. m_role m = Some ''user'') (messagesOf t) of
        Some m \<Rightarrow> valueOr (m_content m) ''unknown''
      | None \<Rightarrow> ''unknown'')"

definition productQueries :: "transcript list \<Rightarrow> (nat list \<times> string) list" where
  "productQueries transcripts =
     concat (map (\<lambda>t. map (\<lambda>productId. (productId, userQueryOf t))
                          (concat (map messageProducts (messagesOf t))))
                 transcripts)"

text \<open>
  \<open>extractProductInsights\<close>. For every product and every style the loop runs
  \<open>if (!productToQueries[productId]) productToQueries[productId] = new Set()\<close> and then
  \<open>productToQueries[productId].add(userQuery)\<close> (for styles, \<open>styleToQueries\<close>). When the
  key is an inherited name, the read finds the inherited value, which has no method
  \<open>add\<close>, and the call throws a \<open>TypeError\<close>. Otherwise the keys of \<open>styleFrequency\<close> are
  the distinct styles, and \<open>topRecommendedProducts\<close> is
  \<open>Object.entries(productFrequency).sort((a, b) => b[1] - a[1]).slice(0, 20)\<close>, each entry
  with the queries of \<open>productToQueries\<close>.
\<close>

definition hitsInherited :: "transcript list \<Rightarrow> bool" where
  "hitsInherited transcripts =
     (list_ex (\<lambda>productId. productId \<in> set (map str inheritedNames)) (productOccurrences transcripts)
      \<or> list_ex (\<lambda>style. style \<in> set inheritedNames) (styleOccurrences transcripts))"

definition extractProductInsights :: "transcript list \<Rightarrow> jsError + productInsights" where
  "extractProductInsights transcripts =
     (let allProductIds = productOccurrences transcripts;
          productFrequency = foldl bumpCount [] allProductIds;
          productToQueries = foldl addQuery [] (productQueries transcripts);
          allStyles = styleOccurrences transcripts
      in if hitsInherited transcripts then Inl TypeError
         else Inr
           \<lparr>totalProductsRecommended = length allProductIds,
            uniqueProductsRecommended = length (distinctFirst allProductIds),
            topRecommendedProducts =
              map (\<lambda>kv. \<lparr>tp_productId = fst kv, tp_frequency = snd kv,
                          tp_associatedQueries =
                            (case map_of productToQueries (fst kv) of Some qs \<Rightarrow> qs | None \<Rightarrow> [])\<rparr>)
                (take 20 (sort_key (\<lambda>kv. - int (snd kv)) (propertyOrderU productFrequency))),
            allProductIds = Some (distinctFirst allProductIds),
            styleAnalysis =
              \<lparr>totalStyles = length (distinctFirst allStyles),
               totalStyleMentions = Some (length allStyles),
               allStyles = Some (map fst (propertyOrder (map (\<lambda>k. (k, ())) (distinctFirst allStyles))))\<rparr>\<rparr>)"

text \<open>
  \<open>extractBotResponseAnalysis\<close>: a session has results when one of its \<open>bot\<close> messages
  carries a results object; a results event is a \<open>bot\<close> message whose \<open>products\<close> is
  truthy.
\<close>

definition hasResults :: "transcript \<Rightarrow> bool" where
  "hasResults t = list_ex (\<lambda>m. m_role m = Some ''bot'' \<and> m_results m \<noteq> None) (messagesOf t)"

definition resultsEvents :: "transcript list \<Rightarrow> json list" where
  "resultsEvents transcripts =
     concat (map (\<lambda>t. concat (map (\<lambda>m.
        if m_role m = Some ''bot'' then
          (case m_results m of
             None \<Rightarrow> []
           | Some r \<Rightarrow> (case products r of None \<Rightarrow> [] | Some v \<Rightarrow> if truthyJ v then [v] else []))
        else []) (messagesOf t))) transcripts)"

definition extractBotResponseAnalysis :: "transcript list \<Rightarrow> botResponseAnalysis" where
  "extractBotResponseAnalysis transcripts =
     \<lparr>sessionsWithResults = length (filter hasResults transcripts),
      sessionsWithoutResults = length (filter (\<lambda>t. \<not> hasResults t) transcripts),
      avgProductsReturned =
        (sum_list (map (\<lambda>v. length (flattenProducts v)) (resultsEvents transcripts)),
         length (resultsEvents transcripts))\<rparr>"

text \<open>
  The main function returns the snapshot or throws what \<open>extractProductInsights\<close>
  throws. It is \<open>None\<close> where \<open>extractQueryAnalysis\<close> is outside this development.
\<close>

definition extractRuleBasedMetrics :: "transcript list \<Rightarrow> (jsError + metrics) option" where
  "extractRuleBasedMetrics transcripts =
     (if transcripts = [] then Some (Inr getEmptyMetrics)
      else case extractProductInsights transcripts of
             Inl e \<Rightarrow> Some (Inl e)
           | Inr pi \<Rightarrow>
               (case extractQueryAnalysis transcripts of
                  None \<Rightarrow> None
                | Some qa \<Rightarrow>
                    Some (Inr \<lparr>sessionOverview = extractSessionOverview transcripts,
                               turnAnalysis = extractTurnAnalysis transcripts,
                               queryAnalysis = qa,
                               productInsights = pi,
                               botResponseAnalysis = extractBotResponseAnalysis transcripts,
                               dataQualityNotes =
                                 \<lparr>totalTranscriptsAnalyzed = length transcripts,
                                  extractionMethod = ''rule-based'',
                                  dataLimitations = Some [''No user engagement/click data available'',
                                                          ''No conversion or purchase data'',
                                                          ''Cannot determine user satisfaction'']\<rparr>\<rparr>)))"

text \<open>
  The read \<open>ruleBasedMetrics.queryAnalysis.allUniqueQueries.slice(0, 15)\<close> of
  \<open>runAnalysis\<close>, which throws on an absent property.
\<close>

definition topSearchedQueries :: "metrics \<Rightarrow> jsError + queryEntry list" where
  "topSearchedQueries ruleBasedMetrics =
     (case allUniqueQueries (queryAnalysis ruleBasedMetrics) of
        None \<Rightarrow> Inl TypeError
      | Some qs \<Rightarrow> Inr (take 15 qs))"


section \<open>The behavioral classifier: intent categories (\<open>extractUserBehavior\<close>)\<close>

text \<open>
  \<open>/\b(near|in|at|around|close to|nearby)\s+(me|my|location|\w+,?\s*\w*)/i\<close>,
  \<open>/\b(price|cost|under|below|above|budget|\$\d+|cheap|expensive|affordable)/i\<close>,
  \<open>/\b(help|issue|problem|error|can'?t|unable|locked|not working|broken)/i\<close> and
  \<open>/\b([A-Z]{2,}\s*[-]?\s*\d+|\d{4,}|model|sku|item\s*#)/i\<close>.
\<close>

definition locationPattern :: re where
  "locationPattern = cats [Wordb,
     Grp 1 (alts (map word_i [''near'', ''in'', ''at'', ''around'', ''close to'', ''nearby''])),
     oneOrMore space,
     Grp 2 (alts [word_i ''me'', word_i ''my'', word_i ''location'',
                  cats [oneOrMore wordChar, optional (lit CHR '',''), Star space, Star wordChar]])]"

definition pricePattern :: re where
  "pricePattern = cats [Wordb,
     Grp 1 (alts [word_i ''price'', word_i ''cost'', word_i ''under'', word_i ''below'', word_i ''above'',
                  word_i ''budget'', cats [lit CHR ''$'', oneOrMore digit],
                  word_i ''cheap'', word_i ''expensive'', word_i ''affordable''])]"

definition supportPattern :: re where
  "supportPattern = cats [Wordb,
     Grp 1 (alts [word_i ''help'', word_i ''issue'', word_i ''problem'', word_i ''error'',
                  cats [word_i ''can'', optional (lit CHR 0x27), liti CHR ''t''],
                  word_i ''unable'', word_i ''locked'', word_i ''not working'', word_i ''broken''])]"

definition letter :: re where
  "letter = oneOf ''abcdefghijklmnopqrstuvwxyzABCDEFGHIJKLMNOPQRSTUVWXYZ''"

definition specificItemPattern :: re where
  "specificItemPattern = cats [Wordb,
     Grp 1 (alts [cats [letter, letter, Star letter, Star space, optional (lit CHR ''-''), Star space,
                        oneOrMore digit],
                  cats [digit, digit, digit, digit, Star digit],
                  word_i ''model'', word_i ''sku'',
                  cats [word_i ''item'', Star space, lit CHR ''#'']])]"

record intentCategories =
  productSearch :: nat
  locationQuery :: nat
  priceInquiry :: nat
  supportRequest :: nat
  categoryBrowse :: nat
  specificItem :: nat

text \<open>The three statements under the comment \<open>Classify intent\<close>, for one query.\<close>

definition classifyIntent :: "intentCategories \<Rightarrow> string \<Rightarrow> intentCategories" where
  "classifyIntent ic q =
     (let ic1 = (if test supportPattern q then ic\<lparr>supportRequest := supportRequest ic + 1\<rparr>
                 else if test locationPattern q then ic\<lparr>locationQuery := locationQuery ic + 1\<rparr>
                 else ic);
          ic2 = (if test pricePattern q then ic1\<lparr>priceInquiry := priceInquiry ic1 + 1\<rparr> else ic1)
      in if test specificItemPattern q then ic2\<lparr>specificItem := specificItem ic2 + 1\<rparr>
         else if wordCount q \<le> 2 \<and> \<not> test locationPattern q \<and> \<not> test supportPattern q
           then ic2\<lparr>categoryBrowse := categoryBrowse ic2 + 1\<rparr>
         else ic2\<lparr>productSearch := productSearch ic2 + 1\<rparr>)"

text \<open>
  The queries the loop classifies: of every message of role \<open>user\<close> the trimmed content,
  when it is not empty.
\<close>

definition classifiedQueries :: "transcript list \<Rightarrow> string list" where
  "classifiedQueries transcripts =
     concat (map (\<lambda>t. filter (\<lambda>q. q \<noteq> [])
                          (map (\<lambda>m. case m_content m of Some c \<Rightarrow> trim c | None \<Rightarrow> [])
                               (filter (\<lambda>m. m_role m = Some ''user'') (messagesOf t))))
                 transcripts)"

definition noIntents :: intentCategories where
  "noIntents = \<lparr>productSearch = 0, locationQuery = 0, priceInquiry = 0, supportRequest = 0,
                categoryBrowse = 0, specificItem = 0\<rparr>"

text \<open>The field \<open>intentCategories\<close> of what \<open>extractUserBehavior\<close> returns.\<close>

definition extractIntentCategories :: "transcript list \<Rightarrow> intentCategories" where
  "extractIntentCategories transcripts = foldl classifyIntent noIntents (classifiedQueries transcripts)"


section \<open>Examples\<close>

text \<open>
  File A is a timestamped log with two conversations separated by a
  \<open>CONVERSATION STARTED\<close> marker, three \<open>USER\<close> lines in all and one \<open>RESULTS\<close> line; file B
  is loose text with one pair of lines.
\<close>

definition fileA :: string where
  "fileA = join [CHR 0x0A]
     [''[2026-01-09T05:09:10.591+00:00] USER: find running shoes'',
      ''[2026-01-09T05:09:15.201+00:00] AI: Here are some options'',
      ''[2026-01-09T05:09:15.201+00:00] RESULTS: STYLES: ['Bold']; PRODUCTS [['p1','p2']]'',
      ''[2026-01-09T05:12:00.000+00:00] CONVERSATION STARTED'',
      ''[2026-01-09T05:12:05.000+00:00] USER: red shoes'',
      ''[2026-01-09T05:12:07.000+00:00] AI: Sure'',
      ''[2026-01-09T05:12:30.000+00:00] USER: thanks'']"

definition fileB :: string where
  "fileB = join [CHR 0x0A] [''User: hello'', ''Bot: hi'']"

text \<open>An id generator for the examples (none of them reaches it with an empty id).\<close>

definition exampleIds :: "nat \<Rightarrow> string" where
  "exampleIds k = ''1767935350591-'' @ showNat k"

text \<open>
  The path of uploaded files to the metrics: \<open>parseUploadedFiles\<close>, \<open>normalizeTranscripts\<close>,
  \<open>extractRuleBasedMetrics\<close>.
\<close>

definition analyzeFiles ::
    "(string \<Rightarrow> int option) \<Rightarrow> (nat \<Rightarrow> string) \<Rightarrow> (string \<times> string) list
       \<Rightarrow> (jsError + metrics) option" where
  "analyzeFiles pd gen files =
     (case parseUploadedFiles pd files of
        None \<Rightarrow> None
      | Some parsedResults \<Rightarrow> extractRuleBasedMetrics (normalizeTranscripts gen parsedResults))"

text \<open>A session of user messages, and a bot message with a results payload.\<close>

definition userSays :: "string \<Rightarrow> message" where
  "userSays c = emptyMessage\<lparr>m_role := Some ''user'', m_content := Some c\<rparr>"

definition botOffers :: "json \<Rightarrow> message" where
  "botOffers v = emptyMessage\<lparr>m_role := Some ''bot'', m_content := Some ''Here you are'',
     m_results := Some \<lparr>styles = None, products = Some v, productsRaw = None\<rparr>\<rparr>"

definition sessionOf :: "message list \<Rightarrow> transcript" where
  "sessionOf ms = \<lparr>t_id = Some ''s1'', t_sourceFile = Some ''s1.txt'', t_messages = Some ms, t_metadata = []\<rparr>"

text \<open>
  What \<open>parseTranscriptContent\<close> returns for the JSON file
  \<open>[{"id":"s1","messages":[{"sender":"customer","text":"I want to speak to a human"}]}]\<close>
  named \<open>f.json\<close>.
\<close>

definition jsonFileResult :: parsedResult where
  "jsonFileResult =
     \<lparr>pr_filename = ''f.json'',
      pr_transcripts =
        [\<lparr>t_id = Some ''s1'', t_sourceFile = None,
          t_messages = Some [emptyMessage\<lparr>m_sender := Some ''customer'',
                                           m_text := Some ''I want to speak to a human''\<rparr>],
          t_metadata = [(''timestamp'', MUndefined), (''language'', MUndefined),
                        (''escalated'', MUndefined), (''hasOrder'', MUndefined)]\<rparr>],
      pr_error = None\<rparr>"


section \<open>Claims about the pipeline, the normalizer and the metrics\<close>

text \<open>The four figures for the two files, computed once.\<close>

lemma fileA_fileB_figures:
  "map_option (map_sum id (\<lambda>m. (totalSessions (sessionOverview m), totalQueries (queryAnalysis m),
                      uniqueProductsRecommended (productInsights m),
                      totalStyles (styleAnalysis (productInsights m)))))
     (analyzeFiles isoDate exampleIds [(''a.txt'', fileA), (''b.txt'', fileB)])
     = Some (Inr (2, 4, 2, 1))"
  by code_simp

text \<open>
  C1, as amended. The timestamped-log parser returns one session for a file, whatever
  markers the file holds, so the two files give two sessions, not three. For file A and
  file B the metrics report \<open>totalSessions = 2\<close>, \<open>totalQueries = 4\<close>,
  \<open>uniqueProductsRecommended = 2\<close> and \<open>styleAnalysis.totalStyles = 1\<close>.
\<close>

theorem two_files_two_sessions:
  "map_option (map_sum id (\<lambda>m. (totalSessions (sessionOverview m), totalQueries (queryAnalysis m),
                      uniqueProductsRecommended (productInsights m),
                      totalStyles (styleAnalysis (productInsights m)))))
     (analyzeFiles isoDate exampleIds [(''a.txt'', fileA), (''b.txt'', fileB)])
     = Some (Inr (2, 4, 2, 1))
   \<and> (\<forall>pd content filename ts.
         parseTimestampedTranscript pd content filename = Inr ts \<longrightarrow> length ts = 1)"
proof -
  note fileA_fileB_figures
  moreover have "\<forall>pd content filename ts.
      parseTimestampedTranscript pd content filename = Inr ts \<longrightarrow> length ts = 1"
    by (auto dest: parseTimestampedTranscript_messages)
  ultimately show ?thesis by blast
qed

theorem two_files_two_sessions_witness:
  "map_sum id length (parseTimestampedTranscript isoDate fileA ''a.txt'') = Inr 1"
proof -
  have "\<not> isl (parseTimestampedTranscript isoDate fileA ''a.txt'')"
    by code_simp
  then obtain ts where ts: "parseTimestampedTranscript isoDate fileA ''a.txt'' = Inr ts"
    by (cases "parseTimestampedTranscript isoDate fileA ''a.txt''") auto
  with two_files_two_sessions have "length ts = 1" by blast
  with ts show ?thesis by simp
qed

text \<open>The claim as stated fails: the metrics of the two files do not report three sessions.\<close>

theorem two_files_not_three_sessions:
  "map_option (map_sum id (\<lambda>m. totalSessions (sessionOverview m)))
     (analyzeFiles isoDate exampleIds [(''a.txt'', fileA), (''b.txt'', fileB)]) \<noteq> Some (Inr 3)"
proof
  assume a: "map_option (map_sum id (\<lambda>m. totalSessions (sessionOverview m)))
     (analyzeFiles isoDate exampleIds [(''a.txt'', fileA), (''b.txt'', fileB)]) = Some (Inr 3)"
  then obtain r where r: "analyzeFiles isoDate exampleIds [(''a.txt'', fileA), (''b.txt'', fileB)] = Some r"
    by (cases "analyzeFiles isoDate exampleIds [(''a.txt'', fileA), (''b.txt'', fileB)]") auto
  with a fileA_fileB_figures show False
    by (cases r) auto
qed

text \<open>
  C6. The object returned for the empty list of sessions lacks properties that the
  object for a non-empty list has, among them \<open>queryAnalysis.allUniqueQueries\<close>, and the
  read of that property in \<open>runAnalysis\<close> throws. For a session with one user message the
  properties are there.
\<close>

theorem empty_metrics_lack_fields:
  "extractRuleBasedMetrics [] = Some (Inr getEmptyMetrics)
   \<and> allUniqueQueries (queryAnalysis getEmptyMetrics) = None
   \<and> uniqueQueryCount (queryAnalysis getEmptyMetrics) = None
   \<and> totalUserMessages (turnAnalysis getEmptyMetrics) = None
   \<and> totalBotMessages (turnAnalysis getEmptyMetrics) = None
   \<and> allProductIds (productInsights getEmptyMetrics) = None
   \<and> totalStyleMentions (styleAnalysis (productInsights getEmptyMetrics)) = None
   \<and> allStyles (styleAnalysis (productInsights getEmptyMetrics)) = None
   \<and> dataLimitations (dataQualityNotes getEmptyMetrics) = None
   \<and> topSearchedQueries getEmptyMetrics = Inl TypeError
   \<and> map_option (map_sum id (\<lambda>m. (allUniqueQueries (queryAnalysis m), uniqueQueryCount (queryAnalysis m),
                        totalUserMessages (turnAnalysis m), allProductIds (productInsights m),
                        topSearchedQueries m)))
        (extractRuleBasedMetrics [sessionOf [userSays ''shoes'']])
      = Some (Inr (Some [\<lparr>query = ''shoes'', frequency = 1\<rparr>], Some 1, Some 1, Some [],
              Inr [\<lparr>query = ''shoes'', frequency = 1\<rparr>]))"
  by code_simp

text \<open>
  C9. Normalizing twice differs from normalizing once on the session of a JSON file whose
  message names its role \<open>sender\<close> and its text \<open>text\<close>: \<open>normalizeMessages\<close> reads these
  properties, the functions that derive the metadata do not. The first pass counts no
  user turn and finds no escalation; the second pass, on the normalized messages, counts
  one turn and finds the escalation.
\<close>

theorem normalizing_twice_differs:
  "map (\<lambda>t. (map_of (t_metadata t) ''userTurns'', map_of (t_metadata t) ''hasEscalation''))
       (normalizeTranscripts exampleIds [jsonFileResult])
     = [(Some (MNum 0), Some (MBool False))]
   \<and> map (\<lambda>t. (map_of (t_metadata t) ''userTurns'', map_of (t_metadata t) ''hasEscalation''))
       (normalizeTranscripts exampleIds (asParsed (normalizeTranscripts exampleIds [jsonFileResult])))
     = [(Some (MNum 1), Some (MBool True))]
   \<and> normalizeTranscripts exampleIds (asParsed (normalizeTranscripts exampleIds [jsonFileResult]))
     \<noteq> normalizeTranscripts exampleIds [jsonFileResult]"
  by code_simp


section \<open>Facts about tables\<close>

lemma distinctFirst_snoc:
  "distinctFirst (xs @ [x]) = (if x \<in> set xs then distinctFirst xs else distinctFirst xs @ [x])"
  by (simp add: distinctFirst_def)

lemma set_distinctFirst: "set (distinctFirst xs) = set xs"
  by (simp add: distinctFirst_def)

lemma distinct_distinctFirst: "distinct (distinctFirst xs)"
  by (simp add: distinctFirst_def)

lemma map_of_tabulate: "k \<in> set ks \<Longrightarrow> map_of (map (\<lambda>x. (x, f x)) ks) k = Some (f k)"
  by (induction ks) auto

lemma map_of_tabulate_None: "k \<notin> set ks \<Longrightarrow> map_of (map (\<lambda>x. (x, f x)) ks) k = None"
  by (induction ks) auto

lemma update_tabulate:
  "distinct ks \<Longrightarrow> k \<in> set ks \<Longrightarrow>
   AList.update k v (map (\<lambda>x. (x, f x)) ks) = map (\<lambda>x. (x, if x = k then v else f x)) ks"
  by (induction ks) auto

text \<open>
  The table of counts that the loop builds over a list of keys has one entry for each
  key, in the order in which the keys are first seen, with the number of its occurrences.
\<close>

lemma count_list_snoc: "count_list (xs @ [x]) y = count_list xs y + (if x = y then 1 else 0)"
  by (induction xs) simp_all

lemma bumpCount_tabulate:
  "bumpCount (map (\<lambda>p. (p, count_list xs p)) (distinctFirst xs)) x
   = map (\<lambda>p. (p, count_list (xs @ [x]) p)) (distinctFirst (xs @ [x]))"
proof (cases "x \<in> set xs")
  case True
  let ?ks = "distinctFirst xs"
  from True have in_ks: "x \<in> set ?ks" by (simp add: set_distinctFirst)
  have "bumpCount (map (\<lambda>p. (p, count_list xs p)) ?ks) x
      = map (\<lambda>p. (p, if p = x then count_list xs x + 1 else count_list xs p)) ?ks"
    using in_ks
    by (simp add: bumpCount_def map_of_tabulate update_tabulate [OF distinct_distinctFirst])
  also have "\<dots> = map (\<lambda>p. (p, count_list (xs @ [x]) p)) ?ks"
    by (rule map_cong [OF refl]) (auto simp: count_list_snoc)
  finally show ?thesis using True by (simp add: distinctFirst_snoc)
next
  case False
  let ?ks = "distinctFirst xs"
  from False have notin: "x \<notin> set ?ks" by (simp add: set_distinctFirst)
  have old: "map (\<lambda>p. (p, count_list (xs @ [x]) p)) ?ks = map (\<lambda>p. (p, count_list xs p)) ?ks"
  proof (rule map_cong [OF refl])
    fix p assume "p \<in> set ?ks"
    with notin have "x \<noteq> p" by blast
    then show "(p, count_list (xs @ [x]) p) = (p, count_list xs p)"
      by (simp add: count_list_snoc)
  qed
  have new: "count_list (xs @ [x]) x = 1"
    using False by (simp add: count_list_snoc count_list_0_iff)
  have b: "bumpCount (map (\<lambda>p. (p, count_list xs p)) ?ks) x
      = map (\<lambda>p. (p, count_list xs p)) ?ks @ [(x, 1)]"
    using notin by (simp add: bumpCount_def map_of_tabulate_None)
  have "map (\<lambda>p. (p, count_list (xs @ [x]) p)) (distinctFirst (xs @ [x]))
      = map (\<lambda>p. (p, count_list (xs @ [x]) p)) ?ks @ [(x, count_list (xs @ [x]) x)]"
    using False by (simp add: distinctFirst_snoc)
  also have "\<dots> = map (\<lambda>p. (p, count_list xs p)) ?ks @ [(x, 1)]"
    by (simp only: old new)
  finally show ?thesis by (simp only: b)
qed

lemma foldl_bumpCount:
  "foldl bumpCount [] xs = map (\<lambda>p. (p, count_list xs p)) (distinctFirst xs)"
proof (induction xs rule: rev_induct)
  case Nil
  show ?case by (simp add: distinctFirst_def)
next
  case (snoc x xs)
  then show ?case by (simp add: bumpCount_tabulate)
qed


section \<open>Claims about the classifier and the flattening\<close>

text \<open>What one classified query adds to the counters.\<close>

lemma classifyIntent_exclusive3:
  "specificItem (classifyIntent ic q) + categoryBrowse (classifyIntent ic q)
     + productSearch (classifyIntent ic q)
   = specificItem ic + categoryBrowse ic + productSearch ic + 1"
  by (simp add: classifyIntent_def Let_def)

lemma classifyIntent_support:
  "supportRequest (classifyIntent ic q) = supportRequest ic + (if test supportPattern q then 1 else 0)"
  by (simp add: classifyIntent_def Let_def)

lemma classifyIntent_location:
  "locationQuery (classifyIntent ic q)
   = locationQuery ic + (if \<not> test supportPattern q \<and> test locationPattern q then 1 else 0)"
  by (simp add: classifyIntent_def Let_def)

lemma classifyIntent_price:
  "priceInquiry (classifyIntent ic q) = priceInquiry ic + (if test pricePattern q then 1 else 0)"
  by (simp add: classifyIntent_def Let_def)

lemma classifyIntent_specific:
  "specificItem (classifyIntent ic q) = specificItem ic + (if test specificItemPattern q then 1 else 0)"
  by (simp add: classifyIntent_def Let_def)

lemma classifyIntent_browse:
  "categoryBrowse (classifyIntent ic q)
   = categoryBrowse ic
     + (if \<not> test specificItemPattern q \<and> wordCount q \<le> 2 \<and> \<not> test locationPattern q
           \<and> \<not> test supportPattern q then 1 else 0)"
  by (simp add: classifyIntent_def Let_def)

lemma classifyIntent_search:
  "productSearch (classifyIntent ic q)
   = productSearch ic
     + (if \<not> test specificItemPattern q
           \<and> \<not> (wordCount q \<le> 2 \<and> \<not> test locationPattern q \<and> \<not> test supportPattern q)
        then 1 else 0)"
  by (simp add: classifyIntent_def Let_def)

lemma foldl_classifyIntent:
  "specificItem (foldl classifyIntent ic qs) + categoryBrowse (foldl classifyIntent ic qs)
     + productSearch (foldl classifyIntent ic qs)
   = specificItem ic + categoryBrowse ic + productSearch ic + length qs"
  "supportRequest (foldl classifyIntent ic qs)
   = supportRequest ic + length (filter (test supportPattern) qs)"
  "locationQuery (foldl classifyIntent ic qs)
   = locationQuery ic + length (filter (\<lambda>q. \<not> test supportPattern q \<and> test locationPattern q) qs)"
  "priceInquiry (foldl classifyIntent ic qs)
   = priceInquiry ic + length (filter (test pricePattern) qs)"
proof (induction qs arbitrary: ic)
  case Nil
  {
    case 1 show ?case by simp
  next
    case 2 show ?case by simp
  next
    case 3 show ?case by simp
  next
    case 4 show ?case by simp
  }
next
  case (Cons q qs)
  {
    case 1 show ?case
      using Cons.IH(1) [of "classifyIntent ic q"] classifyIntent_exclusive3 [of ic q] by simp
  next
    case 2 show ?case
      using Cons.IH(2) [of "classifyIntent ic q"] by (simp add: classifyIntent_support)
  next
    case 3 show ?case
      using Cons.IH(3) [of "classifyIntent ic q"] by (simp add: classifyIntent_location)
  next
    case 4 show ?case
      using Cons.IH(4) [of "classifyIntent ic q"] by (simp add: classifyIntent_price)
  }
qed

lemma foldl_classifyIntent_buckets:
  "specificItem (foldl classifyIntent ic qs)
   = specificItem ic + length (filter (test specificItemPattern) qs)"
  "categoryBrowse (foldl classifyIntent ic qs)
   = categoryBrowse ic
     + length (filter (\<lambda>q. \<not> test specificItemPattern q \<and> wordCount q \<le> 2
                         \<and> \<not> test locationPattern q \<and> \<not> test supportPattern q) qs)"
  "productSearch (foldl classifyIntent ic qs)
   = productSearch ic
     + length (filter (\<lambda>q. \<not> test specificItemPattern q
                         \<and> \<not> (wordCount q \<le> 2 \<and> \<not> test locationPattern q
                                \<and> \<not> test supportPattern q)) qs)"
proof (induction qs arbitrary: ic)
  case Nil
  {
    case 1 show ?case by simp
  next
    case 2 show ?case by simp
  next
    case 3 show ?case by simp
  }
next
  case (Cons q qs)
  {
    case 1 show ?case
      using Cons.IH(1) [of "classifyIntent ic q"] by (simp add: classifyIntent_specific)
  next
    case 2 show ?case
      using Cons.IH(2) [of "classifyIntent ic q"] by (simp add: classifyIntent_browse)
  next
    case 3 show ?case
      using Cons.IH(3) [of "classifyIntent ic q"] by (simp add: classifyIntent_search)
  }
qed

text \<open>
  C5, as amended. The classifier makes two independent choices for every non-empty user
  query. The first increments exactly one of the three counters \<open>specificItem\<close>,
  \<open>categoryBrowse\<close> and \<open>productSearch\<close>, in this priority: \<open>specificItem\<close> when the
  specific-item pattern matches; else \<open>categoryBrowse\<close> when the query has at most two words
  and matches neither the location nor the support pattern; else \<open>productSearch\<close>. The
  second increments \<open>supportRequest\<close> when the support pattern matches, else
  \<open>locationQuery\<close> when the location pattern matches, else nothing. \<open>priceInquiry\<close> counts
  the queries that match the price pattern. So each counter is the number of classified
  queries of its case; the three counters add up to the number of classified queries, and
  the five counters add up to that number plus the number of queries that match the
  support or the location pattern.
\<close>

theorem intent_counters:
  "specificItem (extractIntentCategories ts)
     = length (filter (test specificItemPattern) (classifiedQueries ts))
   \<and> categoryBrowse (extractIntentCategories ts)
       = length (filter (\<lambda>q. \<not> test specificItemPattern q \<and> wordCount q \<le> 2
                           \<and> \<not> test locationPattern q \<and> \<not> test supportPattern q)
                  (classifiedQueries ts))
   \<and> productSearch (extractIntentCategories ts)
       = length (filter (\<lambda>q. \<not> test specificItemPattern q
                           \<and> \<not> (wordCount q \<le> 2 \<and> \<not> test locationPattern q
                                  \<and> \<not> test supportPattern q))
                  (classifiedQueries ts))
   \<and> supportRequest (extractIntentCategories ts)
       = length (filter (test supportPattern) (classifiedQueries ts))
   \<and> locationQuery (extractIntentCategories ts)
       = length (filter (\<lambda>q. \<not> test supportPattern q \<and> test locationPattern q) (classifiedQueries ts))
   \<and> priceInquiry (extractIntentCategories ts)
       = length (filter (test pricePattern) (classifiedQueries ts))
   \<and> specificItem (extractIntentCategories ts) + categoryBrowse (extractIntentCategories ts)
       + productSearch (extractIntentCategories ts) = length (classifiedQueries ts)
   \<and> supportRequest (extractIntentCategories ts) + locationQuery (extractIntentCategories ts)
       + specificItem (extractIntentCategories ts) + categoryBrowse (extractIntentCategories ts)
       + productSearch (extractIntentCategories ts)
       = length (classifiedQueries ts)
         + length (filter (\<lambda>q. test supportPattern q \<or> test locationPattern q) (classifiedQueries ts))"
proof -
  let ?qs = "classifiedQueries ts"
  let ?ic = "extractIntentCategories ts"
  have spe: "specificItem ?ic = length (filter (test specificItemPattern) ?qs)"
    using foldl_classifyIntent_buckets(1) [of noIntents ?qs]
    by (simp add: extractIntentCategories_def noIntents_def)
  have bro: "categoryBrowse ?ic
      = length (filter (\<lambda>q. \<not> test specificItemPattern q \<and> wordCount q \<le> 2
                          \<and> \<not> test locationPattern q \<and> \<not> test supportPattern q) ?qs)"
    using foldl_classifyIntent_buckets(2) [of noIntents ?qs]
    by (simp add: extractIntentCategories_def noIntents_def)
  have sea: "productSearch ?ic
      = length (filter (\<lambda>q. \<not> test specificItemPattern q
                          \<and> \<not> (wordCount q \<le> 2 \<and> \<not> test locationPattern q
                                 \<and> \<not> test supportPattern q)) ?qs)"
    using foldl_classifyIntent_buckets(3) [of noIntents ?qs]
    by (simp add: extractIntentCategories_def noIntents_def)
  have three: "specificItem ?ic + categoryBrowse ?ic + productSearch ?ic = length ?qs"
    using foldl_classifyIntent(1) [of noIntents ?qs]
    by (simp add: extractIntentCategories_def noIntents_def)
  have sup: "supportRequest ?ic = length (filter (test supportPattern) ?qs)"
    using foldl_classifyIntent(2) [of noIntents ?qs]
    by (simp add: extractIntentCategories_def noIntents_def)
  have loc: "locationQuery ?ic
      = length (filter (\<lambda>q. \<not> test supportPattern q \<and> test locationPattern q) ?qs)"
    using foldl_classifyIntent(3) [of noIntents ?qs]
    by (simp add: extractIntentCategories_def noIntents_def)
  have pri: "priceInquiry ?ic = length (filter (test pricePattern) ?qs)"
    using foldl_classifyIntent(4) [of noIntents ?qs]
    by (simp add: extractIntentCategories_def noIntents_def)
  have split: "length (filter (test supportPattern) qs)
      + length (filter (\<lambda>q. \<not> test supportPattern q \<and> test locationPattern q) qs)
      = length (filter (\<lambda>q. test supportPattern q \<or> test locationPattern q) qs)" for qs
    by (induction qs) auto
  have five: "supportRequest ?ic + locationQuery ?ic + specificItem ?ic + categoryBrowse ?ic
       + productSearch ?ic
       = length ?qs + length (filter (\<lambda>q. test supportPattern q \<or> test locationPattern q) ?qs)"
    using three sup loc split [of ?qs] by simp
  from spe bro sea sup loc pri three five show ?thesis by blast
qed

text \<open>
  A session with five queries. \<open>help\<close> is a support request and, having one word but
  matching the support pattern, a product search; \<open>running shoes\<close> is a category browse;
  \<open>sku 12345\<close> is a specific item; \<open>stores near me\<close> is a location query and a product
  search; \<open>boots under $50\<close> is a price inquiry and a product search.
\<close>

theorem intent_counters_witness:
  "extractIntentCategories [sessionOf [userSays ''help'', userSays ''running shoes'',
      userSays ''sku 12345'', userSays ''stores near me'', userSays ''boots under $50'']]
     = \<lparr>productSearch = 3, locationQuery = 1, priceInquiry = 1, supportRequest = 1,
        categoryBrowse = 1, specificItem = 1\<rparr>
   \<and> length (classifiedQueries [sessionOf [userSays ''help'', userSays ''running shoes'',
      userSays ''sku 12345'', userSays ''stores near me'', userSays ''boots under $50'']]) = 5
   \<and> filter (test specificItemPattern) (classifiedQueries [sessionOf [userSays ''help'',
      userSays ''running shoes'', userSays ''sku 12345'', userSays ''stores near me'',
      userSays ''boots under $50'']]) = [''sku 12345'']"
proof -
  let ?ts = "[sessionOf [userSays ''help'', userSays ''running shoes'',
      userSays ''sku 12345'', userSays ''stores near me'', userSays ''boots under $50'']]"
  have v: "extractIntentCategories ?ts
     = \<lparr>productSearch = 3, locationQuery = 1, priceInquiry = 1, supportRequest = 1,
        categoryBrowse = 1, specificItem = 1\<rparr>"
    by code_simp
  have f: "filter (test specificItemPattern) (classifiedQueries ?ts) = [''sku 12345'']"
    by code_simp
  from intent_counters [of ?ts] v f show ?thesis by simp
qed

text \<open>
  The claim as stated fails: for the one query \<open>help\<close> the five counters add up to two.
\<close>

theorem intent_buckets_not_exclusive:
  "supportRequest (extractIntentCategories [sessionOf [userSays ''help'']])
     + locationQuery (extractIntentCategories [sessionOf [userSays ''help'']])
     + specificItem (extractIntentCategories [sessionOf [userSays ''help'']])
     + categoryBrowse (extractIntentCategories [sessionOf [userSays ''help'']])
     + productSearch (extractIntentCategories [sessionOf [userSays ''help'']]) = 2
   \<and> length (classifiedQueries [sessionOf [userSays ''help'']]) = 1"
  by code_simp

text \<open>The products the engine collects are the string leaves of the results events.\<close>

lemma messageProducts_leaves:
  "messageProducts m =
     (if m_role m = Some ''bot'' then
        (case m_results m of
           None \<Rightarrow> []
         | Some r \<Rightarrow> (case products r of None \<Rightarrow> [] | Some v \<Rightarrow> if truthyJ v then stringLeaves v else []))
      else [])"
  by (simp add: messageProducts_def flattenProducts_def flatten_leaves split: option.splits)

lemma concat_map_concat_map:
  "concat (map f (concat (map g xs))) = concat (map (\<lambda>x. concat (map f (g x))) xs)"
  by (induction xs) simp_all

lemma productOccurrences_events:
  "productOccurrences ts = concat (map stringLeaves (resultsEvents ts))"
proof -
  have m: "messageProducts m = concat (map stringLeaves
      (if m_role m = Some ''bot'' then
          (case m_results m of
             None \<Rightarrow> []
           | Some r \<Rightarrow> (case products r of None \<Rightarrow> [] | Some v \<Rightarrow> if truthyJ v then [v] else []))
        else []))" for m
    by (simp add: messageProducts_leaves split: option.splits)
  have t: "concat (map messageProducts ms) = concat (map stringLeaves (concat (map (\<lambda>m.
        if m_role m = Some ''bot'' then
          (case m_results m of
             None \<Rightarrow> []
           | Some r \<Rightarrow> (case products r of None \<Rightarrow> [] | Some v \<Rightarrow> if truthyJ v then [v] else []))
        else []) ms)))" for ms
    by (induction ms) (simp_all add: m)
  show ?thesis
    unfolding productOccurrences_def resultsEvents_def
    by (induction ts) (simp_all add: t)
qed

text \<open>
  C10, as amended. \<open>flattenProducts\<close> returns exactly the leaves of the nested arrays
  that are non-empty strings, depth first; a number, \<open>null\<close>, a boolean, an object or an
  empty string among the leaves is dropped. The engine's array of recommended products is
  made of these string leaves of the results events; the product total, the unique ids
  and the product frequencies are counted in it, the frequency of an id being the number
  of its occurrences among the string leaves; and the sum behind \<open>avgProductsReturned\<close>
  is the number of string leaves. The divisor of \<open>avgProductsReturned\<close> is the number of
  results events, that is of \<open>bot\<close> messages whose \<open>products\<close> is truthy, with or without
  string leaves. (\<open>extractProductInsights\<close> returns whenever no product id among the string
  leaves and no style is the name of a property that objects inherit.)
\<close>

theorem flatten_keeps_string_leaves:
  "flattenProducts v = stringLeaves v
   \<and> (let ids = concat (map stringLeaves (resultsEvents ts)) in
        productOccurrences ts = ids
        \<and> (\<forall>pi. extractProductInsights ts = Inr pi \<longrightarrow>
              totalProductsRecommended pi = length ids
              \<and> uniqueProductsRecommended pi = length (distinctFirst ids)
              \<and> allProductIds pi = Some (distinctFirst ids)
              \<and> map (\<lambda>e. (tp_productId e, tp_frequency e)) (topRecommendedProducts pi)
                  = take 20 (sort_key (\<lambda>kv. - int (snd kv))
                      (propertyOrderU (map (\<lambda>p. (p, count_list ids p)) (distinctFirst ids)))))
        \<and> (list_all (\<lambda>p. p \<notin> set (map str inheritedNames)) ids
             \<and> list_all (\<lambda>style. style \<notin> set inheritedNames) (styleOccurrences ts)
             \<longrightarrow> (\<exists>pi. extractProductInsights ts = Inr pi))
        \<and> avgProductsReturned (extractBotResponseAnalysis ts) = (length ids, length (resultsEvents ts)))"
proof -
  define ids where "ids = concat (map stringLeaves (resultsEvents ts))"
  have occ: "productOccurrences ts = ids"
    by (simp add: ids_def productOccurrences_events)
  have sum: "sum_list (map (\<lambda>v. length (flattenProducts v)) vs) = length (concat (map stringLeaves vs))" for vs
    by (induction vs) (simp_all add: flattenProducts_def flatten_leaves)
  have a: "flattenProducts v = stringLeaves v"
    by (simp add: flattenProducts_def flatten_leaves)
  have top: "(\<lambda>e. (tp_productId e, tp_frequency e))
      \<circ> (\<lambda>kv. \<lparr>tp_productId = fst kv, tp_frequency = snd kv, tp_associatedQueries = f kv\<rparr>) = id"
    for f :: "nat list \<times> nat \<Rightarrow> string list"
    by (simp add: fun_eq_iff)
  have b: "\<forall>pi. extractProductInsights ts = Inr pi \<longrightarrow>
      totalProductsRecommended pi = length ids
      \<and> uniqueProductsRecommended pi = length (distinctFirst ids)
      \<and> allProductIds pi = Some (distinctFirst ids)
      \<and> map (\<lambda>e. (tp_productId e, tp_frequency e)) (topRecommendedProducts pi)
          = take 20 (sort_key (\<lambda>kv. - int (snd kv))
              (propertyOrderU (map (\<lambda>p. (p, count_list ids p)) (distinctFirst ids))))"
    by (auto simp: extractProductInsights_def Let_def occ foldl_bumpCount top split: if_splits)
  have r: "list_all (\<lambda>p. p \<notin> set (map str inheritedNames)) ids
      \<and> list_all (\<lambda>style. style \<notin> set inheritedNames) (styleOccurrences ts)
      \<longrightarrow> (\<exists>pi. extractProductInsights ts = Inr pi)"
  proof
    assume h: "list_all (\<lambda>p. p \<notin> set (map str inheritedNames)) ids
      \<and> list_all (\<lambda>style. style \<notin> set inheritedNames) (styleOccurrences ts)"
    then have "\<not> hitsInherited ts"
      by (simp add: hitsInherited_def occ list_all_iff list_ex_iff)
    then show "\<exists>pi. extractProductInsights ts = Inr pi"
      by (simp add: extractProductInsights_def Let_def)
  qed
  have c: "avgProductsReturned (extractBotResponseAnalysis ts) = (length ids, length (resultsEvents ts))"
    by (simp add: extractBotResponseAnalysis_def sum ids_def)
  from a occ b r c show ?thesis
    unfolding ids_def Let_def by blast
qed

text \<open>
  A session with the query \<open>shoes\<close> and two results events. The first payload has a number,
  \<open>null\<close>, a boolean, an object and an empty string among its leaves: only \<open>a\<close>, \<open>b\<close> and
  again \<open>a\<close> are counted. The second payload is the number \<open>5\<close>: it adds no product and
  counts as a results event.
\<close>

theorem flatten_keeps_string_leaves_witness:
  "flattenProducts (JArr [JArr [JStr (str ''a''), JNum 5 0, JNull], JBool True,
      JObj [(str ''id'', JStr (str ''x''))], JStr [], JArr [JArr [JStr (str ''b'')], JStr (str ''a'')]])
     = [str ''a'', str ''b'', str ''a'']
   \<and> map_sum id (\<lambda>pi. (totalProductsRecommended pi, uniqueProductsRecommended pi, allProductIds pi,
          map (\<lambda>e. (tp_productId e, tp_frequency e)) (topRecommendedProducts pi)))
        (extractProductInsights
          [sessionOf [userSays ''shoes'',
             botOffers (JArr [JArr [JStr (str ''a''), JNum 5 0, JNull], JBool True,
               JObj [(str ''id'', JStr (str ''x''))], JStr [], JArr [JArr [JStr (str ''b'')], JStr (str ''a'')]]),
             botOffers (JNum 5 0)]])
     = Inr (3, 2, Some [str ''a'', str ''b''], [(str ''a'', 2), (str ''b'', 1)])
   \<and> avgProductsReturned (extractBotResponseAnalysis
          [sessionOf [userSays ''shoes'',
             botOffers (JArr [JArr [JStr (str ''a''), JNum 5 0, JNull], JBool True,
               JObj [(str ''id'', JStr (str ''x''))], JStr [], JArr [JArr [JStr (str ''b'')], JStr (str ''a'')]]),
             botOffers (JNum 5 0)]])
     = (3, 2)"
proof -
  let ?v = "JArr [JArr [JStr (str ''a''), JNum 5 0, JNull], JBool True,
      JObj [(str ''id'', JStr (str ''x''))], JStr [], JArr [JArr [JStr (str ''b'')], JStr (str ''a'')]]"
  let ?ts = "[sessionOf [userSays ''shoes'', botOffers ?v, botOffers (JNum 5 0)]]"
  let ?ids = "[str ''a'', str ''b'', str ''a'']"
  have l: "stringLeaves ?v = ?ids"
    by code_simp
  have e: "resultsEvents ?ts = [?v, JNum 5 0]"
    by code_simp
  have ids: "concat (map stringLeaves [?v, JNum 5 0]) = ?ids"
    by code_simp
  have h: "list_all (\<lambda>p. p \<notin> set (map str inheritedNames)) ?ids
      \<and> list_all (\<lambda>style. style \<notin> set inheritedNames) (styleOccurrences ?ts)"
    by code_simp
  have d: "distinctFirst ?ids = [str ''a'', str ''b'']"
    by code_simp
  have t: "take 20 (sort_key (\<lambda>kv. - int (snd kv))
      (propertyOrderU (map (\<lambda>p. (p, count_list ?ids p)) [str ''a'', str ''b''])))
      = [(str ''a'', 2), (str ''b'', 1)]"
    by code_simp
  note th = flatten_keeps_string_leaves [of ?v ?ts, unfolded Let_def e ids]
  from th h obtain pi where pi: "extractProductInsights ?ts = Inr pi"
    by blast
  with th have "totalProductsRecommended pi = length ?ids"
    "uniqueProductsRecommended pi = length (distinctFirst ?ids)"
    "allProductIds pi = Some (distinctFirst ?ids)"
    "map (\<lambda>e. (tp_productId e, tp_frequency e)) (topRecommendedProducts pi)
       = take 20 (sort_key (\<lambda>kv. - int (snd kv))
           (propertyOrderU (map (\<lambda>p. (p, count_list ?ids p)) (distinctFirst ?ids))))"
    by blast+
  with pi d t have p: "map_sum id (\<lambda>pi. (totalProductsRecommended pi, uniqueProductsRecommended pi,
      allProductIds pi, map (\<lambda>e. (tp_productId e, tp_frequency e)) (topRecommendedProducts pi)))
        (extractProductInsights ?ts)
     = Inr (3, 2, Some [str ''a'', str ''b''], [(str ''a'', 2), (str ''b'', 1)])"
    by simp
  from th have "avgProductsReturned (extractBotResponseAnalysis ?ts) = (length ?ids, length [?v, JNum 5 0])"
    by blast
  then have a: "avgProductsReturned (extractBotResponseAnalysis ?ts) = (3, 2)"
    by simp
  from th l have f: "flattenProducts ?v = ?ids"
    by simp
  from f p a show ?thesis by blast
qed

text \<open>
  The claim as stated fails: a results event whose payload is the number \<open>5\<close> adds no
  product and changes \<open>avgProductsReturned\<close> from two products over one event to two
  products over two events.
\<close>

theorem non_string_payload_counts_in_average:
  "flattenProducts (JNum 5 0) = []
   \<and> avgProductsReturned (extractBotResponseAnalysis
        [sessionOf [botOffers (JArr [JStr (str ''a''), JStr (str ''b'')])]]) = (2, 1)
   \<and> avgProductsReturned (extractBotResponseAnalysis
        [sessionOf [botOffers (JArr [JStr (str ''a''), JStr (str ''b'')]), botOffers (JNum 5 0)]]) = (2, 2)"
  by code_simp


section \<open>Claims about the query analysis\<close>

text \<open>
  The deduplication in the words of the specification: one entry for each lower-case
  form, in the order in which the forms are first seen, with the first literal spelling
  and the number of occurrences; the entries sorted by descending frequency with a stable
  sort.
\<close>

definition firstSeen :: "string \<Rightarrow> string list \<Rightarrow> string" where
  "firstSeen k qs = (case find (\<lambda>q. toLowerCase q = k) qs of Some q \<Rightarrow> q | None \<Rightarrow> [])"

definition occurrences :: "string \<Rightarrow> string list \<Rightarrow> nat" where
  "occurrences k qs = length (filter (\<lambda>q. toLowerCase q = k) qs)"

definition dedupEntries :: "string list \<Rightarrow> (string \<times> queryEntry) list" where
  "dedupEntries qs =
     map (\<lambda>k. (k, \<lparr>query = firstSeen k qs, frequency = occurrences k qs\<rparr>))
       (distinctFirst (map toLowerCase qs))"

definition dedupedQueries :: "string list \<Rightarrow> queryEntry list" where
  "dedupedQueries qs = sort_key (\<lambda>e. - int (frequency e)) (map snd (dedupEntries qs))"

text \<open>The table the loop builds holds these entries, unless a query is \<open>__proto__\<close>.\<close>

lemma find_snoc:
  "find P (xs @ [y]) = (case find P xs of None \<Rightarrow> (if P y then Some y else None) | Some x \<Rightarrow> Some x)"
  by (induction xs) simp_all

lemma firstSeen_snoc:
  "firstSeen k (qs @ [q]) =
     (if k \<in> set (map toLowerCase qs) then firstSeen k qs
      else if toLowerCase q = k then q else [])"
proof -
  have "k \<in> set (map toLowerCase qs) \<Longrightarrow> \<exists>x. find (\<lambda>q. toLowerCase q = k) qs = Some x"
    by (cases "find (\<lambda>q. toLowerCase q = k) qs") (auto simp: find_None_iff)
  moreover have "k \<notin> set (map toLowerCase qs) \<Longrightarrow> find (\<lambda>q. toLowerCase q = k) qs = None"
    by (auto simp: find_None_iff)
  ultimately show ?thesis
    by (auto simp: firstSeen_def find_snoc)
qed

lemma occurrences_snoc:
  "occurrences k (qs @ [q]) = occurrences k qs + (if toLowerCase q = k then 1 else 0)"
  by (simp add: occurrences_def)

lemma occurrences_absent: "k \<notin> set (map toLowerCase qs) \<Longrightarrow> occurrences k qs = 0"
  by (auto simp: occurrences_def filter_empty_conv)

lemma bumpQuery_dedupEntries:
  assumes "toLowerCase q \<noteq> ''__proto__''"
  shows "bumpQuery (dedupEntries qs) q = dedupEntries (qs @ [q])"
proof (cases "toLowerCase q \<in> set (map toLowerCase qs)")
  case True
  let ?k = "toLowerCase q"
  let ?ks = "distinctFirst (map toLowerCase qs)"
  from True have in_ks: "?k \<in> set ?ks" by (simp add: set_distinctFirst)
  have ks': "distinctFirst (map toLowerCase (qs @ [q])) = ?ks"
    using True by (simp add: distinctFirst_snoc)
  have "bumpQuery (dedupEntries qs) q =
      map (\<lambda>x. (x, if x = ?k then \<lparr>query = firstSeen ?k qs, frequency = occurrences ?k qs + 1\<rparr>
                   else \<lparr>query = firstSeen x qs, frequency = occurrences x qs\<rparr>)) ?ks"
    using assms in_ks
    by (simp add: bumpQuery_def Let_def dedupEntries_def map_of_tabulate
        update_tabulate [OF distinct_distinctFirst])
  also have "\<dots> = map (\<lambda>x. (x, \<lparr>query = firstSeen x (qs @ [q]), frequency = occurrences x (qs @ [q])\<rparr>)) ?ks"
  proof (rule map_cong [OF refl])
    fix x assume "x \<in> set ?ks"
    then have "x \<in> set (map toLowerCase qs)" by (simp add: set_distinctFirst)
    then show "(x, if x = ?k then \<lparr>query = firstSeen ?k qs, frequency = occurrences ?k qs + 1\<rparr>
                   else \<lparr>query = firstSeen x qs, frequency = occurrences x qs\<rparr>)
        = (x, \<lparr>query = firstSeen x (qs @ [q]), frequency = occurrences x (qs @ [q])\<rparr>)"
      by (auto simp: firstSeen_snoc occurrences_snoc)
  qed
  also have "\<dots> = dedupEntries (qs @ [q])"
    by (simp only: dedupEntries_def ks')
  finally show ?thesis .
next
  case False
  let ?k = "toLowerCase q"
  let ?ks = "distinctFirst (map toLowerCase qs)"
  from False have notin: "?k \<notin> set ?ks" by (simp add: set_distinctFirst)
  have ks': "distinctFirst (map toLowerCase (qs @ [q])) = ?ks @ [?k]"
    using False by (simp add: distinctFirst_snoc)
  have old: "map (\<lambda>x. (x, \<lparr>query = firstSeen x (qs @ [q]), frequency = occurrences x (qs @ [q])\<rparr>)) ?ks
      = map (\<lambda>x. (x, \<lparr>query = firstSeen x qs, frequency = occurrences x qs\<rparr>)) ?ks"
  proof (rule map_cong [OF refl])
    fix x assume "x \<in> set ?ks"
    then have x: "x \<in> set (map toLowerCase qs)" by (simp add: set_distinctFirst)
    with False have "x \<noteq> ?k" by blast
    with x show "(x, \<lparr>query = firstSeen x (qs @ [q]), frequency = occurrences x (qs @ [q])\<rparr>)
        = (x, \<lparr>query = firstSeen x qs, frequency = occurrences x qs\<rparr>)"
      by (auto simp: firstSeen_snoc occurrences_snoc)
  qed
  have new: "\<lparr>query = firstSeen ?k (qs @ [q]), frequency = occurrences ?k (qs @ [q])\<rparr>
      = \<lparr>query = q, frequency = 1\<rparr>"
    using False by (simp add: firstSeen_snoc occurrences_snoc occurrences_absent)
  have "bumpQuery (dedupEntries qs) q = dedupEntries qs @ [(?k, \<lparr>query = q, frequency = 1\<rparr>)]"
    using assms notin
    by (simp add: bumpQuery_def Let_def dedupEntries_def map_of_tabulate_None)
  also have "\<dots> = dedupEntries (qs @ [q])"
    unfolding dedupEntries_def ks' by (simp add: old new)
  finally show ?thesis .
qed

lemma queryFrequencyOf_dedupEntries:
  assumes "\<forall>q \<in> set qs. toLowerCase q \<noteq> ''__proto__''"
  shows "queryFrequencyOf qs = dedupEntries qs"
  using assms
proof (induction qs rule: rev_induct)
  case Nil
  show ?case by (simp add: queryFrequencyOf_def dedupEntries_def distinctFirst_def)
next
  case (snoc q qs)
  then have "queryFrequencyOf qs = dedupEntries qs" by simp
  then have "queryFrequencyOf (qs @ [q]) = bumpQuery (dedupEntries qs) q"
    by (simp add: queryFrequencyOf_def)
  with snoc.prems show ?case by (simp add: bumpQuery_dedupEntries)
qed

lemma propertyOrder_no_index:
  assumes "\<forall>kv \<in> set ps. arrayIndex (fst kv) = None"
  shows "propertyOrder ps = ps"
proof -
  from assms have "filter (\<lambda>kv. arrayIndex (fst kv) \<noteq> None) ps = []"
    by (auto simp: filter_empty_conv)
  moreover from assms have "filter (\<lambda>kv. arrayIndex (fst kv) = None) ps = ps"
    by (auto simp: filter_id_conv)
  ultimately show ?thesis by (simp add: propertyOrder_def)
qed

lemma fst_dedupEntries: "map fst (dedupEntries qs) = distinctFirst (map toLowerCase qs)"
  by (simp add: dedupEntries_def comp_def)

lemma uniqueQueriesOf_deduped:
  assumes "\<forall>q \<in> set qs. arrayIndex (toLowerCase q) = None \<and> toLowerCase q \<noteq> ''__proto__''"
  shows "uniqueQueriesOf qs = dedupedQueries qs"
proof -
  from assms have t: "queryFrequencyOf qs = dedupEntries qs"
    by (simp add: queryFrequencyOf_dedupEntries)
  have "\<forall>kv \<in> set (dedupEntries qs). arrayIndex (fst kv) = None"
  proof
    fix kv assume "kv \<in> set (dedupEntries qs)"
    then have "fst kv \<in> set (map fst (dedupEntries qs))" by simp
    then have "fst kv \<in> set (map toLowerCase qs)"
      by (simp only: fst_dedupEntries set_distinctFirst)
    with assms show "arrayIndex (fst kv) = None" by auto
  qed
  then have "propertyOrder (dedupEntries qs) = dedupEntries qs"
    by (rule propertyOrder_no_index)
  with t show ?thesis
    by (simp add: uniqueQueriesOf_def dedupedQueries_def sortByFrequency_def)
qed

lemma dedupedQueries_sorted:
  "sorted_wrt (\<lambda>a b. frequency b \<le> frequency a) (dedupedQueries qs)"
proof -
  have "sorted (map (\<lambda>e. - int (frequency e)) (dedupedQueries qs))"
    by (simp add: dedupedQueries_def)
  then show ?thesis
    by (simp add: sorted_wrt_map)
qed

lemma dedupedQueries_stable:
  "filter (\<lambda>e. frequency e = n) (dedupedQueries qs) = filter (\<lambda>e. frequency e = n) (map snd (dedupEntries qs))"
proof -
  have "filter (\<lambda>e. - int (frequency e) = - int n) (sort_key (\<lambda>e. - int (frequency e)) (map snd (dedupEntries qs)))
      = filter (\<lambda>e. - int (frequency e) = - int n) (map snd (dedupEntries qs))"
    by (rule sort_key_stable)
  then show ?thesis by (simp add: dedupedQueries_def)
qed

text \<open>
  C7, as amended. The table of queries is an object, and an object lists the keys that
  are array indices (\<open>42\<close>, \<open>2024\<close>) before the other keys, in numeric order; and the
  keys \<open>__proto__\<close> and \<open>constructor\<close> read inherited properties. For every session list
  in which no lower-cased query is an array index, \<open>__proto__\<close> or \<open>constructor\<close>, the user
  queries are deduplicated case-insensitively with a frequency count for each unique
  form, the display string is the first-seen literal spelling, and the list of unique
  queries is sorted by descending frequency with ties in first-seen order.
\<close>

theorem query_dedup_frequency:
  assumes "\<forall>q \<in> set (allQueriesOf ts).
      arrayIndex (toLowerCase q) = None \<and> toLowerCase q \<noteq> ''__proto__''
      \<and> toLowerCase q \<noteq> ''constructor''"
  shows "(\<exists>qa. extractQueryAnalysis ts = Some qa
            \<and> totalQueries qa = length (allQueriesOf ts)
            \<and> allUniqueQueries qa = Some (dedupedQueries (allQueriesOf ts))
            \<and> uniqueQueries qa = take 50 (dedupedQueries (allQueriesOf ts)))
       \<and> sorted_wrt (\<lambda>a b. frequency b \<le> frequency a) (dedupedQueries (allQueriesOf ts))
       \<and> (\<forall>n. filter (\<lambda>e. frequency e = n) (dedupedQueries (allQueriesOf ts))
               = filter (\<lambda>e. frequency e = n) (map snd (dedupEntries (allQueriesOf ts))))"
proof -
  let ?qs = "allQueriesOf ts"
  from assms have u: "uniqueQueriesOf ?qs = dedupedQueries ?qs"
    by (intro uniqueQueriesOf_deduped) simp
  from assms have c: "''constructor'' \<notin> set (map toLowerCase ?qs)"
    by auto
  have "\<exists>qa. extractQueryAnalysis ts = Some qa
            \<and> totalQueries qa = length ?qs
            \<and> allUniqueQueries qa = Some (dedupedQueries ?qs)
            \<and> uniqueQueries qa = take 50 (dedupedQueries ?qs)"
    using c by (simp add: extractQueryAnalysis_def Let_def u)
  with dedupedQueries_sorted [of ?qs] dedupedQueries_stable [of _ ?qs] show ?thesis
    by blast
qed

text \<open>
  Three spellings of \<open>find shoes\<close> between two other queries: one entry of frequency 3
  with the first spelling, then the two others in the order first seen.
\<close>

theorem query_dedup_frequency_witness:
  "map_option allUniqueQueries
     (extractQueryAnalysis [sessionOf [userSays ''boots'', userSays ''Find shoes'',
        userSays ''find shoes'', userSays ''FIND SHOES'', userSays ''sandals'']])
   = Some (Some [\<lparr>query = ''Find shoes'', frequency = 3\<rparr>, \<lparr>query = ''boots'', frequency = 1\<rparr>,
                 \<lparr>query = ''sandals'', frequency = 1\<rparr>])"
proof -
  let ?ts = "[sessionOf [userSays ''boots'', userSays ''Find shoes'',
        userSays ''find shoes'', userSays ''FIND SHOES'', userSays ''sandals'']]"
  have "list_all (\<lambda>q. arrayIndex (toLowerCase q) = None \<and> toLowerCase q \<noteq> ''__proto__''
      \<and> toLowerCase q \<noteq> ''constructor'') (allQueriesOf ?ts)"
    by code_simp
  then have h: "\<forall>q \<in> set (allQueriesOf ?ts).
      arrayIndex (toLowerCase q) = None \<and> toLowerCase q \<noteq> ''__proto__''
      \<and> toLowerCase q \<noteq> ''constructor''"
    by (simp only: list_all_iff)
  have d: "dedupedQueries (allQueriesOf ?ts)
      = [\<lparr>query = ''Find shoes'', frequency = 3\<rparr>, \<lparr>query = ''boots'', frequency = 1\<rparr>,
         \<lparr>query = ''sandals'', frequency = 1\<rparr>]"
    by code_simp
  from query_dedup_frequency [OF h] obtain qa where
    "extractQueryAnalysis ?ts = Some qa" "allUniqueQueries qa = Some (dedupedQueries (allQueriesOf ?ts))"
    by blast
  with d show ?thesis by simp
qed

text \<open>
  The claim as stated fails: of the queries \<open>shoes\<close> and \<open>42\<close>, both of frequency 1, the
  one seen second is listed first.
\<close>

theorem query_ties_not_first_seen:
  "map_option (\<lambda>qa. map_option (map query) (allUniqueQueries qa))
     (extractQueryAnalysis [sessionOf [userSays ''shoes'', userSays ''42'']])
   = Some (Some [''42'', ''shoes''])
   \<and> map query (dedupedQueries (allQueriesOf [sessionOf [userSays ''shoes'', userSays ''42'']]))
   = [''shoes'', ''42'']"
  by code_simp


section \<open>The normalizer on plain messages\<close>

text \<open>Messages that carry their role in \<open>role\<close> and their text in \<open>content\<close>.\<close>

definition plainMessage :: "message \<Rightarrow> bool" where
  "plainMessage m = (m_sender m = None \<and> m_text m = None \<and> m_message m = None)"

lemma normalizeRole_values: "normalizeRole r \<in> {''user'', ''bot'', ''unknown''}"
  by (simp add: normalizeRole_def Let_def)

lemma normalizeRole_fixed:
  "normalizeRole ''user'' = ''user''" "normalizeRole ''bot'' = ''bot''" "normalizeRole ''unknown'' = ''unknown''"
  "normalizeRole [] = ''unknown''"
  by code_simp+

lemma normalizeRole_idem: "normalizeRole (normalizeRole r) = normalizeRole r"
  using normalizeRole_values [of r] normalizeRole_fixed by auto

lemma valueOr_Some: "valueOr (Some x) d = (if x = [] then d else x)"
  by (simp add: valueOr_def orElse_def truthy_def)

lemma valueOr_None: "valueOr None d = d"
  by (simp add: valueOr_def orElse_def truthy_def)

lemma orElse_None: "orElse x None = (if truthy x then x else None)"
  by (simp add: orElse_def)

lemma valueOr_orElse_None: "valueOr (orElse x None) d = valueOr x d"
  by (cases x) (auto simp: valueOr_def orElse_def truthy_def)

lemma normalizeMessage_plain: "plainMessage (normalizeMessage im)"
  by (cases im) (simp add: normalizeMessage_def plainMessage_def)

lemma normalizeRole_unknown_word: "normalizeRole (valueOr r ''unknown'') = normalizeRole (valueOr r [])"
  by (cases r) (auto simp: valueOr_Some valueOr_None normalizeRole_fixed)

lemma valueOr_nonempty: "d \<noteq> [] \<Longrightarrow> valueOr x d \<noteq> []"
  by (cases x) (auto simp: valueOr_def orElse_def truthy_def)

lemma renormalize_id: "d \<noteq> [] \<Longrightarrow> valueOr (Some (valueOr x d)) d = valueOr x d"
  by (simp add: valueOr_Some valueOr_nonempty)

lemma normalizeRole_nonempty: "normalizeRole r \<noteq> []"
  using normalizeRole_values [of r] by auto

lemma renormalize_role:
  "normalizeRole (valueOr (orElse (Some (normalizeRole r)) None) ''unknown'') = normalizeRole r"
  by (simp add: valueOr_orElse_None valueOr_Some normalizeRole_nonempty normalizeRole_idem)

lemma renormalize_content:
  "valueOr (orElse (orElse (Some (valueOr x [])) None) None) [] = valueOr x []"
  by (simp add: valueOr_orElse_None valueOr_Some)

lemma renormalize_timestamp:
  "(if truthy (if truthy t then t else None) then (if truthy t then t else None) else None)
   = (if truthy t then t else None)"
  by (simp add: truthy_def)

lemma normalizeMessage_idem:
  "normalizeMessage (i, normalizeMessage (i, m)) = normalizeMessage (i, m)"
proof -
  have d: "''msg-'' @ showNat i \<noteq> []" by simp
  show ?thesis
    unfolding normalizeMessage_def prod.case message.simps
    by (simp only: renormalize_id [OF d] renormalize_role renormalize_content renormalize_timestamp)
qed

lemma enumerate_map_snd: "enumerate n (map f (enumerate n xs)) = map (\<lambda>ix. (fst ix, f ix)) (enumerate n xs)"
  by (induction xs arbitrary: n) simp_all

lemma normalizeMessages_idem: "normalizeMessages (normalizeMessages ms) = normalizeMessages ms"
proof -
  have "map normalizeMessage (enumerate n (map normalizeMessage (enumerate n ms)))
      = map normalizeMessage (enumerate n ms)" for n
  proof -
    have "map normalizeMessage (enumerate n (map normalizeMessage (enumerate n ms)))
        = map (\<lambda>ix. normalizeMessage (fst ix, normalizeMessage ix)) (enumerate n ms)"
      by (simp add: enumerate_map_snd comp_def)
    also have "\<dots> = map normalizeMessage (enumerate n ms)"
    proof (rule map_cong [OF refl])
      fix ix assume "ix \<in> set (enumerate n ms)"
      show "normalizeMessage (fst ix, normalizeMessage ix) = normalizeMessage ix"
        using normalizeMessage_idem [of "fst ix" "snd ix"] by simp
    qed
    finally show ?thesis .
  qed
  then show ?thesis by (simp add: normalizeMessages_def)
qed

lemma length_normalizeMessages: "length (normalizeMessages ms) = length ms"
  by (simp add: normalizeMessages_def)

text \<open>On plain messages the derived metadata is the same before and after.\<close>

lemma content_normalizeMessage:
  "plainMessage (snd im) \<Longrightarrow> valueOr (m_content (normalizeMessage im)) [] = valueOr (m_content (snd im)) []"
  by (cases im) (simp add: normalizeMessage_def plainMessage_def valueOr_orElse_None valueOr_Some)

lemma role_normalizeMessage:
  "plainMessage (snd im) \<Longrightarrow>
   normalizeRole (valueOr (m_role (normalizeMessage im)) []) = normalizeRole (valueOr (m_role (snd im)) [])"
  by (cases im)
     (simp add: normalizeMessage_def plainMessage_def valueOr_orElse_None valueOr_Some
        normalizeRole_nonempty normalizeRole_idem normalizeRole_unknown_word)

lemma joinedContent_normalizeMessages:
  assumes "list_all plainMessage ms"
  shows "joinedContent (normalizeMessages ms) = joinedContent ms"
proof -
  have "map (\<lambda>m. toLowerCase (valueOr (m_content m) [])) (map normalizeMessage (enumerate n ms))
      = map (\<lambda>m. toLowerCase (valueOr (m_content m) [])) ms" for n
    using assms
  proof (induction ms arbitrary: n)
    case Nil
    show ?case by simp
  next
    case (Cons m ms)
    then show ?case
      using content_normalizeMessage [of "(n, m)"] by simp
  qed
  then show ?thesis by (simp add: joinedContent_def normalizeMessages_def)
qed

lemma countTurns_normalizeMessages:
  assumes "list_all plainMessage ms"
  shows "countUserTurns (normalizeMessages ms) = countUserTurns ms"
    and "countBotTurns (normalizeMessages ms) = countBotTurns ms"
proof -
  have "map (\<lambda>m. normalizeRole (valueOr (m_role m) [])) (map normalizeMessage (enumerate n ms))
      = map (\<lambda>m. normalizeRole (valueOr (m_role m) [])) ms" for n
    using assms
  proof (induction ms arbitrary: n)
    case Nil
    show ?case by simp
  next
    case (Cons m ms)
    then show ?case
      using role_normalizeMessage [of "(n, m)"] by simp
  qed
  then have r: "map (\<lambda>m. normalizeRole (valueOr (m_role m) [])) (normalizeMessages ms)
      = map (\<lambda>m. normalizeRole (valueOr (m_role m) [])) ms"
    by (simp add: normalizeMessages_def)
  have f: "length (filter (\<lambda>m. g m = w) xs) = length (filter (\<lambda>y. y = w) (map g xs))" for g w and xs :: "message list"
    by (induction xs) simp_all
  show "countUserTurns (normalizeMessages ms) = countUserTurns ms"
    unfolding countUserTurns_def f r ..
  show "countBotTurns (normalizeMessages ms) = countBotTurns ms"
    unfolding countBotTurns_def f r ..
qed


lemma derived_metadata_idem:
  "foldl (\<lambda>md kv. AList.update (fst kv) (snd kv) md)
     (foldl (\<lambda>md kv. AList.update (fst kv) (snd kv) md) md0
        [(''messageCount'', a), (''hasEscalation'', b), (''hasOrder'', c), (''userTurns'', d), (''botTurns'', e)])
     [(''messageCount'', a), (''hasEscalation'', b), (''hasOrder'', c), (''userTurns'', d), (''botTurns'', e)]
   = foldl (\<lambda>md kv. AList.update (fst kv) (snd kv) md) md0
        [(''messageCount'', a), (''hasEscalation'', b), (''hasOrder'', c), (''userTurns'', d), (''botTurns'', e)]"
  by (simp add: AList.update_triv AList.update_conv')

lemma normalizeOne_idem:
  assumes "list_all plainMessage (messagesOf t)"
  shows "normalizeOne f i (normalizeOne f i t) = normalizeOne f i t"
proof -
  have m: "messagesOf (normalizeOne f i t) = normalizeMessages (messagesOf t)"
    by (simp add: normalizeOne_def messagesOf_def)
  have md: "t_metadata (normalizeOne f i t) =
      foldl (\<lambda>md kv. AList.update (fst kv) (snd kv) md) (t_metadata t)
        [(''messageCount'', MNum (length (messagesOf t))),
         (''hasEscalation'', MBool (detectEscalation (messagesOf t))),
         (''hasOrder'', MBool (detectOrder (messagesOf t))),
         (''userTurns'', MNum (countUserTurns (messagesOf t))),
         (''botTurns'', MNum (countBotTurns (messagesOf t)))]"
    by (simp add: normalizeOne_def)
  have e: "detectEscalation (normalizeMessages (messagesOf t)) = detectEscalation (messagesOf t)"
    and o: "detectOrder (normalizeMessages (messagesOf t)) = detectOrder (messagesOf t)"
    by (simp_all add: detectEscalation_def detectOrder_def joinedContent_normalizeMessages [OF assms])
  show ?thesis
    unfolding normalizeOne_def [of f i "normalizeOne f i t"] m md
    by (simp only: normalizeMessages_idem length_normalizeMessages e o
        countTurns_normalizeMessages [OF assms] derived_metadata_idem)
       (simp add: normalizeOne_def)
qed

text \<open>
  On parse results whose messages are plain, as those of both text grammars are,
  normalizing the normalized sessions again changes nothing (\<open>generateId\<close> returning
  non-empty ids).
\<close>

lemma normalizeFrom_head_again:
  assumes "i \<noteq> []" and "list_all plainMessage (messagesOf t)"
  shows "normalizeFrom gen' k' ((valueOr (t_sourceFile (normalizeOne f i t)) [], normalizeOne f i t) # rest)
       = normalizeOne f i t # normalizeFrom gen' k' rest"
proof -
  have id: "t_id (normalizeOne f i t) = Some i"
    and sf: "valueOr (t_sourceFile (normalizeOne f i t)) [] = f"
    by (simp_all add: normalizeOne_def valueOr_Some)
  from assms(1) have tr: "truthy (Some i)" and v: "valueOr (Some i) [] = i"
    by (simp_all add: truthy_def valueOr_Some)
  show ?thesis
    by (simp only: normalizeFrom.simps fst_conv snd_conv id sf tr v if_True normalizeOne_idem [OF assms(2)])
qed

lemma normalizeFrom_again:
  assumes "\<forall>ft \<in> set fts. list_all plainMessage (messagesOf (snd ft))"
    and "\<forall>k. gen k \<noteq> []"
  shows "normalizeFrom gen' k' (map (\<lambda>t. (valueOr (t_sourceFile t) [], t)) (normalizeFrom gen k fts))
       = normalizeFrom gen k fts"
  using assms(1)
proof (induction fts arbitrary: k k')
  case Nil
  show ?case by simp
next
  case (Cons ft fts)
  from Cons.prems have p: "list_all plainMessage (messagesOf (snd ft))"
    and rest: "\<forall>ft \<in> set fts. list_all plainMessage (messagesOf (snd ft))"
    by simp_all
  show ?case
  proof (cases "truthy (t_id (snd ft))")
    case True
    then have ne: "valueOr (t_id (snd ft)) [] \<noteq> []"
      by (cases "t_id (snd ft)") (auto simp: truthy_def valueOr_Some)
    have "normalizeFrom gen k (ft # fts)
        = normalizeOne (fst ft) (valueOr (t_id (snd ft)) []) (snd ft) # normalizeFrom gen k fts"
      using True by simp
    then show ?thesis
      by (simp only: list.map normalizeFrom_head_again [OF ne p] Cons.IH [OF rest])
  next
    case False
    have ne: "gen k \<noteq> []" using assms(2) by simp
    have "normalizeFrom gen k (ft # fts)
        = normalizeOne (fst ft) (gen k) (snd ft) # normalizeFrom gen (Suc k) fts"
      using False by simp
    then show ?thesis
      by (simp only: list.map normalizeFrom_head_again [OF ne p] Cons.IH [OF rest])
  qed
qed

lemma pending_asParsed: "pending (asParsed ts) = map (\<lambda>t. (valueOr (t_sourceFile t) [], t)) ts"
  by (induction ts) (simp_all add: pending_def asParsed_def truthy_def)

lemma normalizeTranscripts_idempotent_plain:
  assumes "\<forall>r \<in> set parsedResults. \<forall>t \<in> set (pr_transcripts r). list_all plainMessage (messagesOf t)"
    and "\<forall>k. gen k \<noteq> []"
  shows "normalizeTranscripts gen' (asParsed (normalizeTranscripts gen parsedResults))
       = normalizeTranscripts gen parsedResults"
proof -
  from assms(1) have "\<forall>ft \<in> set (pending parsedResults). list_all plainMessage (messagesOf (snd ft))"
    by (auto simp: pending_def split: if_splits)
  from normalizeFrom_again [OF this assms(2)] show ?thesis
    by (simp add: normalizeTranscripts_def pending_asParsed)
qed

end
